theory Spec2Isabelle
  imports Complex_Main "HOL-Library.AList"
begin

section \<open>dirsniff: the classification engine\<close>

text \<open>
  The program is the TypeScript command-line tool \<^verbatim>\<open>dirsniff\<close>, in the version that
  returns a tree of \<^verbatim>\<open>DirectoryInfo\<close> values (the one with a symbolic-link bucket and
  \<^verbatim>\<open>printResults\<close>). Every definition below follows one function of that file and
  keeps its name.

  Conventions of the embedding.
  \<^item> A JavaScript string is a \<^typ>\<open>string\<close>. Every test the program makes on a name
    (the first character, the presence of a dot, the UUID shape) is about ASCII characters.
  \<^item> A JavaScript number that counts something (a depth, a length, an occurrence count) is
    a \<^typ>\<open>nat\<close>; \<^verbatim>\<open>MAXDEPTH\<close> is an \<^typ>\<open>int\<close>, since the command line can make it negative.
  \<^item> \<^verbatim>\<open>undefined\<close> in an optional field is \<^term>\<open>None\<close>.
  \<^item> The file system, \<^verbatim>\<open>path.join\<close>, \<^verbatim>\<open>localeCompare\<close>, \<^verbatim>\<open>parseInt\<close> and \<^verbatim>\<open>Number\<close> are
    not code of the program: they are the fields of a record \<open>platform\<close> that the
    functions doing input take as their first argument.
\<close>

subsection \<open>String primitives of the language\<close>

text \<open>\<^verbatim>\<open>s[0] === "."\<close>: false on the empty string, where \<^verbatim>\<open>s[0]\<close> is undefined.\<close>

definition first_is_dot :: "string \<Rightarrow> bool" where
  "first_is_dot s = (case s of [] \<Rightarrow> False | c # _ \<Rightarrow> c = CHR ''.'')"

text \<open>\<^verbatim>\<open>s.includes(".")\<close>.\<close>

definition includes_dot :: "string \<Rightarrow> bool" where
  "includes_dot s = (CHR ''.'' \<in> set s)"

text \<open>
  \<^verbatim>\<open>path.extname(s)\<close> of Node, for a name that is a single path component (what
  \<^verbatim>\<open>readdir\<close> returns): the part of the name from its last dot on; the empty string when
  the name has no dot, when its only dot is its first character, and for \<^verbatim>\<open>..\<close>.
\<close>

fun last_dot :: "string \<Rightarrow> nat \<Rightarrow> nat option \<Rightarrow> nat option" where
  "last_dot [] i found = found"
| "last_dot (c # cs) i found = last_dot cs (Suc i) (if c = CHR ''.'' then Some i else found)"

definition extname :: "string \<Rightarrow> string" where
  "extname s =
     (case last_dot s 0 None of
        None \<Rightarrow> []
      | Some k \<Rightarrow> if k = 0 \<or> s = ''..'' then [] else drop k s)"

text \<open>\<^verbatim>\<open>s.toLowerCase()\<close>, on the ASCII letters.\<close>

definition toLowerCase_char :: "char \<Rightarrow> char" where
  "toLowerCase_char c =
     (case map_of (zip ''ABCDEFGHIJKLMNOPQRSTUVWXYZ'' ''abcdefghijklmnopqrstuvwxyz'') c of
        Some l \<Rightarrow> l
      | None \<Rightarrow> c)"

definition toLowerCase :: "string \<Rightarrow> string" where
  "toLowerCase s = map toLowerCase_char s"

text \<open>A count inside a template literal: its decimal digits.\<close>

definition digit_char :: "nat \<Rightarrow> char" where
  "digit_char n = ''0123456789'' ! n"

fun string_of_nat :: "nat \<Rightarrow> string" where
  "string_of_nat n =
     (if n < 10 then [digit_char n]
      else string_of_nat (n div 10) @ [digit_char (n mod 10)])"

declare string_of_nat.simps [simp del]

text \<open>\<^verbatim>\<open>arr.join(sep)\<close>.\<close>

fun join :: "string list \<Rightarrow> string \<Rightarrow> string" where
  "join [] sep = []"
| "join [x] sep = x"
| "join (x # y # ys) sep = x @ sep @ join (y # ys) sep"

text \<open>
  The regular expression \<^verbatim>\<open>UUIDRegex\<close>: five groups of 8, 4, 4, 4 and 12 hexadecimal digits
  joined by dashes, or 32 hexadecimal digits, and nothing else in the name.
\<close>

definition isHexDigit :: "char \<Rightarrow> bool" where
  "isHexDigit c = (c \<in> set ''0123456789ABCDEFabcdef'')"

fun hex_groups :: "nat list \<Rightarrow> string \<Rightarrow> bool" where
  "hex_groups [] s = False"
| "hex_groups [n] s = (length s = n \<and> list_all isHexDigit s)"
| "hex_groups (n # m # ns) s =
     (n < length s \<and> list_all isHexDigit (take n s) \<and> s ! n = CHR ''-'' \<and>
      hex_groups (m # ns) (drop (Suc n) s))"

definition UUIDRegex_test :: "string \<Rightarrow> bool" where
  "UUIDRegex_test s = (hex_groups [8, 4, 4, 4, 12] s \<or> hex_groups [32] s)"

subsection \<open>Types of the program\<close>

text \<open>
  \<^verbatim>\<open>DirentStat\<close>: the three type tests are the results of the functions of the same
  names; \<^verbatim>\<open>size\<close> is the field \<open>size_bytes\<close> here.
\<close>

record DirentStat =
  isFile :: bool
  isDirectory :: bool
  isSymbolicLink :: bool
  name :: string
  size_bytes :: "nat option"
  statError :: "string option"

datatype AdditionalInfoKind = GitRepository | GitHubRepository | MacFinderFiles

type_synonym AdditionalInfo = "AdditionalInfoKind list"

datatype EntryKind = Unknown | Error | File | Directory | SymbolicLink

text \<open>An exception caught by the program: its \<^verbatim>\<open>code\<close> and its \<^verbatim>\<open>message\<close>.\<close>

record js_error =
  code :: "string option"
  message :: string

text \<open>
  \<^verbatim>\<open>DirectoryInfo\<close>. The selector of a field carries the suffix \<open>_of\<close>, since the program
  also uses most of the field names for local variables and functions.
\<close>

datatype DirectoryInfo = DirectoryInfo
  (name_of: string)
  (kind_of: EntryKind)
  (identified_of: bool)
  (error_of: "js_error option")
  (additionalInfo_of: "AdditionalInfo option")
  (identificationFailures_of: "string list option")
  (answers_of: "string list option")
  (collections_of: "string option")
  (verboseSummary_of: "string option")
  (directoryInfos_of: "DirectoryInfo list option")

type_synonym extensionObject = "(string \<times> nat) list"

subsection \<open>collate\<close>

text \<open>
  \<^verbatim>\<open>tests.some((t, i) => { const r = t(d); if (r) index = i; return r; })\<close>: the loop
  stops at the first test that passes and leaves \<open>index\<close> as it was when none does.
\<close>

fun some_test :: "('a \<Rightarrow> bool) list \<Rightarrow> 'a \<Rightarrow> nat \<Rightarrow> nat \<Rightarrow> nat" where
  "some_test [] d i index = index"
| "some_test (t # ts) d i index = (if t d then i else some_test ts d (Suc i) index)"

definition collate :: "'a list \<Rightarrow> ('a \<Rightarrow> bool) list \<Rightarrow> 'a list list" where
  "collate input tests =
     foldl (\<lambda>a d. let index = some_test tests d 0 (length tests)
                   in a[index := a ! index @ [d]])
       (replicate (length tests + 1) []) input"

text \<open>The nine tests of \<^verbatim>\<open>processDirents\<close>, in their order.\<close>

definition dirent_tests :: "(DirentStat \<Rightarrow> bool) list" where
  "dirent_tests =
     [\<lambda>d. statError d \<noteq> None,
      \<lambda>d. isSymbolicLink d,
      \<lambda>d. \<not> isFile d \<and> \<not> isDirectory d,
      \<lambda>d. isFile d \<and> first_is_dot (name d),
      \<lambda>d. isFile d,
      \<lambda>d. isDirectory d \<and> first_is_dot (name d),
      \<lambda>d. isDirectory d \<and> includes_dot (name d),
      \<lambda>d. isDirectory d \<and> UUIDRegex_test (name d),
      \<lambda>d. isDirectory d]"

subsection \<open>The containment tests\<close>

definition includesAll :: "string list \<Rightarrow> string list \<Rightarrow> bool" where
  "includesAll dirents filenames = list_all (\<lambda>n. list_ex (\<lambda>d. d = n) dirents) filenames"

definition includesAny :: "string list \<Rightarrow> string list \<Rightarrow> bool" where
  "includesAny dirents filenames = list_ex (\<lambda>n. list_ex (\<lambda>d. d = n) dirents) filenames"

text \<open>
  The function \<^verbatim>\<open>includes\<close> of the program (the name is a keyword of Isabelle),
  \<^verbatim>\<open>strings.includes(str[0])\<close>: only the first needle is looked at; with no needle
  \<^verbatim>\<open>str[0]\<close> is undefined, which no array of strings includes.
\<close>

definition includes_str :: "string list \<Rightarrow> string list \<Rightarrow> bool" where
  "includes_str strings str = (case str of [] \<Rightarrow> False | s # _ \<Rightarrow> s \<in> set strings)"

subsection \<open>autoIdentify\<close>

type_synonym step = "string list \<times> (string list \<Rightarrow> string list \<Rightarrow> bool) \<times> string list"

datatype entry = Entry (entry_name: string) (entry_steps: "step list")

text \<open>
  The table of \<^verbatim>\<open>autoIdentify\<close>. As in the source, it is built from the seven arrays the
  function receives: a step holds the array it searches, the test and the needles.
\<close>

definition table ::
  "string list \<Rightarrow> string list \<Rightarrow> string list \<Rightarrow> string list \<Rightarrow> string list \<Rightarrow>
   string list \<Rightarrow> string list \<Rightarrow> entry list" where
  "table normalDirectories dotDirectories dirExtensions normalFiles dotFiles fileExtensions
     symbolicLinks =
   [Entry ''Android Studio or IntelliJ IDEA project''
      [(dotDirectories, includes_str, [''.idea''])],
    Entry ''Clojure project''
      [(normalFiles, includes_str, [''project.clj'']),
       (normalDirectories, includesAll, [''src'', ''test''])],
    Entry ''Crystal project''
      [(dotFiles, includesAll, [''.gitignore'', ''.editorconfig'']),
       (normalFiles, includesAll, [''LICENSE'', ''README.md'', ''shard.yml'']),
       (normalDirectories, includesAll, [''src'', ''spec''])],
    Entry ''D (DUB) project''
      [(normalFiles, includesAny, [''dub.json'', ''dub.sdl''])],
    Entry ''Dart package''
      [(normalFiles, includes_str, [''pubspec.yaml'']),
       (normalDirectories, includes_str, [''lib''])],
    Entry ''Deno folder''
      [(normalFiles, includesAny, [''deno.json'', ''deno.jsonc''])],
    Entry ''Eclipse workspace''
      [(dotFiles, includesAll, [''.classpath'', ''.project'']),
       (dotDirectories, includes_str, [''.settings'']),
       (normalDirectories, includesAll, [''bin'', ''src''])],
    Entry ''Flutter project''
      [(dotDirectories, includesAll, [''.dart_tool'', ''.idea'']),
       (normalDirectories, includesAll, [''android'', ''ios'', ''lib'', ''test'']),
       (dotFiles, includesAll, [''.gitignore'', ''.metadata'', ''.packages'']),
       (normalFiles, includesAll, [''demo_app.iml'', ''pubspec.lock'', ''pubspec.yaml''])],
    Entry ''Ghidra project''
      [(normalDirectories, includesAll, [''idata'', ''user'', ''versioned'']),
       (normalFiles, includesAll, [''project.prp'', ''projectState''])],
    Entry ''Git repository .git directory''
      [(normalFiles, includesAll, [''HEAD'', ''config'', ''description'']),
       (normalDirectories, includesAll, [''hooks'', ''info'', ''objects'', ''refs''])],
    Entry ''Go module''
      [(normalFiles, includes_str, [''go.mod''])],
    Entry ''Gradle project''
      [(normalFiles, includes_str, [''build.gradle''])],
    Entry ''Hack project''
      [(dotFiles, includes_str, [''.hhconfig''])],
    Entry ''Julia package''
      [(normalFiles, includes_str, [''Project.toml'']),
       (normalDirectories, includes_str, [''src''])],
    Entry ''macOS application''
      [(normalDirectories, includes_str, [''Contents''])],
    Entry ''macOS application (wrapped)''
      [(normalDirectories, includes_str, [''Wrapper'']),
       (symbolicLinks, includes_str, [''WrappedBundle''])],
    Entry ''Nim package''
      [(normalDirectories, includesAll, [''src'', ''tests'']),
       (fileExtensions, includes_str, [''.nimble''])],
    Entry ''Perl CPAN module''
      [(normalDirectories, includes_str, [''t'']),
       (normalFiles, includes_str, [''Makefile.PL''])],
    Entry ''Python package''
      [(normalFiles, includes_str, [''__init__.py''])],
    Entry ''Racket package''
      [(normalFiles, includes_str, [''info.rkt''])],
    Entry ''React Native project''
      [(normalDirectories, includesAll, [''ios'', ''android'']),
       (normalFiles, includesAll, [''index.js'', ''App.js''])],
    Entry ''Retro Virtual Machine''
      [(normalDirectories, includes_str, [''snap'']),
       (normalFiles, includes_str, [''machine''])],
    Entry ''Rust project''
      [(normalFiles, includesAll, [''Cargo.lock'', ''Cargo.toml'']),
       (normalDirectories, includesAll, [''src''])],
    Entry ''Scala project''
      [(normalFiles, includes_str, [''build.sbt'']),
       (normalDirectories, includesAll, [''project'', ''src'', ''target''])],
    Entry ''Typescript project''
      [(normalFiles, includes_str, [''tsconfig.json'']),
       (fileExtensions, includes_str, [''.ts''])],
    Entry ''Visual Studio project''
      [(dotDirectories, includes_str, [''.vs'']),
       (fileExtensions, includes_str, [''.sln''])],
    Entry ''Xcode project''
      [(dirExtensions, includes_str, [''.xcodeproj''])],
    Entry ''Zig project''
      [(normalDirectories, includesAll, [''src'', ''zig-cache'', ''zig-out'']),
       (normalFiles, includes_str, [''build.zig''])]]"

text \<open>\<^verbatim>\<open>entry.steps.every((s) => { const [haystack, check, needles] = s; ... })\<close>.\<close>

definition steps_pass :: "step list \<Rightarrow> bool" where
  "steps_pass ss = list_all (\<lambda>(haystack, check, needles). check haystack needles) ss"

text \<open>The \<^verbatim>\<open>forEach\<close> over the table, pushing the name of each entry that passes.\<close>

definition autoIdentify ::
  "string list \<Rightarrow> string list \<Rightarrow> string list \<Rightarrow> string list \<Rightarrow> string list \<Rightarrow>
   string list \<Rightarrow> string list \<Rightarrow> string list" where
  "autoIdentify normalDirectories dotDirectories dirExtensions normalFiles dotFiles
     fileExtensions symbolicLinks =
   foldl (\<lambda>answers entry.
            if steps_pass (entry_steps entry) then answers @ [entry_name entry] else answers)
     []
     (table normalDirectories dotDirectories dirExtensions normalFiles dotFiles fileExtensions
        symbolicLinks)"

subsection \<open>checkForCollections\<close>

datatype extclass = ExtClass (class_name: string) (class_exts: "string list")

definition audioexts :: "string list" where
  "audioexts = [''.mp3'', ''.mp4'', ''.m4a'', ''.ogg'', ''.ram'', ''.wav'']"

definition jpegexts :: "string list" where
  "jpegexts = [''.jpeg'', ''.jpg'']"

definition otherimgexts :: "string list" where
  "otherimgexts = [''.gif'', ''.png'', ''.svg'', ''.tiff'', ''.webp'']"

definition videxts :: "string list" where
  "videxts = [''.mov'', ''.mp4'', ''.webp'']"

definition jsexts :: "string list" where
  "jsexts = [''.cjs'', ''.coffee'', ''.cts'', ''.js'', ''.jsx'', ''.mjs'', ''.mts'', ''.ts'', ''.tsx'']"

definition plexts :: "string list" where
  "plexts = [''.pod'', ''.pl'', ''.pm'']"

definition wordexts :: "string list" where
  "wordexts = [''.doc'', ''.docx'']"

definition excelexts :: "string list" where
  "excelexts = [''.xls'', ''.xlsx'']"

definition extensions :: "extclass list" where
  "extensions =
     [ExtClass ''audio'' audioexts,
      ExtClass ''jpeg'' jpegexts,
      ExtClass ''image'' (jpegexts @ otherimgexts),
      ExtClass ''video'' videxts,
      ExtClass ''media'' (jpegexts @ otherimgexts @ audioexts @ videxts),
      ExtClass ''web'' [''.css'', ''.htm'', ''.html'', ''.js''],
      ExtClass ''C source'' [''.c'', ''.h''],
      ExtClass ''C++ source'' [''.cpp'', ''.hpp''],
      ExtClass ''archive'' [''.bz2'', ''.gz'', ''.xz'', ''.zip''],
      ExtClass ''Perl script'' plexts,
      ExtClass ''JavaScript/ECMAScript/CoffeeScript/TypeScript'' jsexts,
      ExtClass ''script'' (jsexts @ plexts @ [''.lua'', ''.php'', ''.py'', ''.sh'']),
      ExtClass ''MS Word'' wordexts,
      ExtClass ''word processor'' (wordexts @ [''.odt'']),
      ExtClass ''Excel'' excelexts,
      ExtClass ''spreadsheet'' (excelexts @ [''.ods'']),
      ExtClass ''MS Office'' (wordexts @ excelexts),
      ExtClass ''LibreOffice'' [''.odt'', ''.ods''],
      ExtClass ''office'' (wordexts @ excelexts @ [''.odt'', ''.ods''])]"

text \<open>\<^verbatim>\<open>`a collection of ${num} ${kind} files`\<close>.\<close>

definition collection_text :: "nat \<Rightarrow> string \<Rightarrow> string" where
  "collection_text num kind = ''a collection of '' @ string_of_nat num @ '' '' @ kind @ '' files''"

text \<open>
  \<^verbatim>\<open>extensions.some((e) => ...)\<close>: the first class that includes every key sets the
  result and stops the loop; \<open>n\<close> is \<^verbatim>\<open>fileExtensions.length\<close>.
\<close>

fun some_class :: "extclass list \<Rightarrow> string list \<Rightarrow> nat \<Rightarrow> string option" where
  "some_class [] keys n = None"
| "some_class (e # es) keys n =
     (if list_all (\<lambda>v. v \<in> set (class_exts e)) keys
      then Some (collection_text n (class_name e))
      else some_class es keys n)"

text \<open>
  An \<^verbatim>\<open>extensionObject\<close> is an association list in insertion order, which is the order
  of \<^verbatim>\<open>Object.keys\<close> for keys that are not array indices. Every key the program stores is
  an extension, so it starts with a dot and is no property of \<^verbatim>\<open>Object.prototype\<close>.
\<close>

definition checkForCollections :: "extensionObject \<Rightarrow> string list \<Rightarrow> string option" where
  "checkForCollections fileextObj fileExtensions =
     (let fileExtensionsInThisDir = map fst fileextObj in
      if length fileExtensionsInThisDir = 1 then
        (let onlykey = hd fileExtensionsInThisDir in
         case map_of fileextObj onlykey of
           None \<Rightarrow> None
         | Some numkeys \<Rightarrow> if numkeys > 1 then Some (collection_text numkeys onlykey) else None)
      else if length fileExtensionsInThisDir > 0 then
        some_class extensions fileExtensionsInThisDir (length fileExtensions)
      else None)"

definition countArrayFieldsToObject :: "string list \<Rightarrow> bool \<Rightarrow> extensionObject" where
  "countArrayFieldsToObject array foldcase =
     foldl (\<lambda>obj str.
              let lcs = (if foldcase then toLowerCase str else str)
              in AList.update lcs (case map_of obj lcs of Some n \<Rightarrow> n + 1 | None \<Rightarrow> 1) obj)
       [] array"

subsection \<open>checkAdditionalNotes\<close>

definition checkAdditionalNotes ::
  "string list \<Rightarrow> string list \<Rightarrow> string list \<Rightarrow> AdditionalInfo" where
  "checkAdditionalNotes dotDirectories normalFiles dotFiles =
     (if includes_str dotDirectories [''.git'']
      then (if includes_str dotDirectories [''.github''] then [GitHubRepository]
            else [GitRepository])
      else [])
     @ (if includes_str normalFiles [''Icon'' @ [CHR 0x0D]] \<or> includes_str dotFiles [''.DS_Store'']
        then [MacFinderFiles] else [])"

subsection \<open>The platform\<close>

text \<open>
  What the program imports or finds built in. \<open>lstat\<close> and \<open>readdir\<close> are the functions of
  \<^verbatim>\<open>fs/promises\<close>; a rejected promise is the left summand. \<open>parseInt10\<close> is
  \<^verbatim>\<open>parseInt(s, 10)\<close> and \<open>Number\<close> is \<^verbatim>\<open>Number(s)\<close>, with \<^term>\<open>None\<close> for \<^verbatim>\<open>NaN\<close>; a
  result of \<^verbatim>\<open>parseInt\<close> that is a number is an integer. Numerals that overflow to
  \<^verbatim>\<open>Infinity\<close> are outside the model.
\<close>

record Stats =
  stats_isFile :: bool
  stats_isDirectory :: bool
  stats_isSymbolicLink :: bool
  stats_size :: nat

record Dirent =
  dirent_isFile :: bool
  dirent_isDirectory :: bool
  dirent_isSymbolicLink :: bool
  dirent_name :: string

record platform =
  lstat :: "string \<Rightarrow> js_error + Stats"
  readdir :: "string \<Rightarrow> js_error + Dirent list"
  path_join :: "string \<Rightarrow> string \<Rightarrow> string"
  localeCompare :: "string \<Rightarrow> string \<Rightarrow> int"
  parseInt10 :: "string \<Rightarrow> int option"
  Number :: "string \<Rightarrow> rat option"

text \<open>
  \<^verbatim>\<open>arr.sort(cmp)\<close>: the sort is stable, and for a comparison that is a total preorder
  its result is the one of this insertion sort.
\<close>

fun insert_cmp :: "('a \<Rightarrow> 'a \<Rightarrow> int) \<Rightarrow> 'a \<Rightarrow> 'a list \<Rightarrow> 'a list" where
  "insert_cmp cmp x [] = [x]"
| "insert_cmp cmp x (y # ys) = (if cmp x y \<le> 0 then x # y # ys else y # insert_cmp cmp x ys)"

definition sort_cmp :: "('a \<Rightarrow> 'a \<Rightarrow> int) \<Rightarrow> 'a list \<Rightarrow> 'a list" where
  "sort_cmp cmp xs = foldr (insert_cmp cmp) xs []"

text \<open>The module-level variables \<^verbatim>\<open>MAXDEPTH\<close>, \<^verbatim>\<open>VERBOSE\<close> and \<^verbatim>\<open>FOLLOWDOT\<close>.\<close>

record config =
  MAXDEPTH :: int
  VERBOSE :: bool
  FOLLOWDOT :: bool

definition initial_config :: config where
  "initial_config = \<lparr>MAXDEPTH = 1, VERBOSE = False, FOLLOWDOT = False\<rparr>"

subsection \<open>verboseSummary\<close>

text \<open>
  A \<^verbatim>\<open>collection\<close> is an array of names or an \<^verbatim>\<open>extensionObject\<close>; the program never
  puts an array of \<^verbatim>\<open>DirentStat\<close> into the list it summarises.
\<close>

datatype collection = Names "string list" | Counts extensionObject

definition ob_get :: "extensionObject \<Rightarrow> string \<Rightarrow> int" where
  "ob_get ob k = (case map_of ob k of Some n \<Rightarrow> int n | None \<Rightarrow> 0)"

definition countObToString :: "platform \<Rightarrow> extensionObject \<Rightarrow> string" where
  "countObToString P ob =
     join
       (map (\<lambda>k. k @ '': '' @ string_of_nat (nat (ob_get ob k)))
          (sort_cmp
             (\<lambda>a b. if ob_get ob b - ob_get ob a \<noteq> 0 then ob_get ob b - ob_get ob a
                    else localeCompare P a b)
             (map fst ob)))
       '', ''"

definition verboseSummary :: "platform \<Rightarrow> nat \<Rightarrow> (collection \<times> string) list \<Rightarrow> string" where
  "verboseSummary P depth colls =
     join
       (map (\<lambda>coll.
               let nm = snd coll in
               case fst coll of
                 Names arr \<Rightarrow>
                   if length arr > 0 then nm @ '': '' @ join arr '', '' else []
               | Counts ob \<Rightarrow>
                   if length (map fst ob) > 0 then nm @ '': '' @ countObToString P ob else [])
          colls)
       [CHR 0x0A]"

subsection \<open>readdirAndStat\<close>

definition readdirAndStat :: "platform \<Rightarrow> string \<Rightarrow> nat \<Rightarrow> js_error + DirentStat list" where
  "readdirAndStat P filename depth =
     (case readdir P filename of
        Inl ex \<Rightarrow> Inl ex
      | Inr veryRawDirents \<Rightarrow>
          let rawDirents =
                sort_cmp (\<lambda>a b. localeCompare P (dirent_name a) (dirent_name b)) veryRawDirents
          in Inr (map (\<lambda>dirent.
                    let ds = \<lparr>isFile = dirent_isFile dirent,
                              isDirectory = dirent_isDirectory dirent,
                              isSymbolicLink = dirent_isSymbolicLink dirent,
                              name = dirent_name dirent,
                              size_bytes = None,
                              statError = None\<rparr>
                    in if dirent_isFile dirent then
                         (case lstat P (path_join P filename (dirent_name dirent)) of
                            Inr st \<Rightarrow> ds\<lparr>size_bytes := Some (stats_size st)\<rparr>
                          | Inl ex \<Rightarrow>
                              \<lparr>isFile = False, isDirectory = False, isSymbolicLink = False,
                               name = dirent_name dirent, size_bytes = None,
                               statError = code ex\<rparr>)
                       else ds)
                  rawDirents))"

subsection \<open>The local constants of processDirents\<close>

text \<open>
  Each constant that \<^verbatim>\<open>processDirents\<close> computes from \<^verbatim>\<open>dirents\<close> alone is a function of
  \<open>dirents\<close> here, under its own name. \<open>buckets\<close> is the array that the program
  destructures: ten arrays of names, the last one being \<^verbatim>\<open>shouldBeEmpty\<close>.
\<close>

definition zeroLenFilenames :: "DirentStat list \<Rightarrow> string list" where
  "zeroLenFilenames dirents = map name (filter (\<lambda>d. isFile d \<and> size_bytes d = Some 0) dirents)"

definition buckets :: "DirentStat list \<Rightarrow> string list list" where
  "buckets dirents = map (map name) (collate dirents dirent_tests)"

definition brokenEntries :: "DirentStat list \<Rightarrow> string list" where
  "brokenEntries dirents = buckets dirents ! 0"

definition symbolicLinks :: "DirentStat list \<Rightarrow> string list" where
  "symbolicLinks dirents = buckets dirents ! 1"

definition unknownEntries :: "DirentStat list \<Rightarrow> string list" where
  "unknownEntries dirents = buckets dirents ! 2"

definition dotFiles :: "DirentStat list \<Rightarrow> string list" where
  "dotFiles dirents = buckets dirents ! 3"

definition normalFiles :: "DirentStat list \<Rightarrow> string list" where
  "normalFiles dirents = buckets dirents ! 4"

definition dotDirectories :: "DirentStat list \<Rightarrow> string list" where
  "dotDirectories dirents = buckets dirents ! 5"

definition directoriesWithExtensions :: "DirentStat list \<Rightarrow> string list" where
  "directoriesWithExtensions dirents = buckets dirents ! 6"

definition UUIDDirectories :: "DirentStat list \<Rightarrow> string list" where
  "UUIDDirectories dirents = buckets dirents ! 7"

definition normalDirectories :: "DirentStat list \<Rightarrow> string list" where
  "normalDirectories dirents = buckets dirents ! 8"

definition shouldBeEmpty :: "DirentStat list \<Rightarrow> string list" where
  "shouldBeEmpty dirents = buckets dirents ! 9"

definition fileExtensions :: "DirentStat list \<Rightarrow> string list" where
  "fileExtensions dirents = map extname (filter includes_dot (normalFiles dirents))"

definition dirExtensions :: "DirentStat list \<Rightarrow> string list" where
  "dirExtensions dirents = map extname (directoriesWithExtensions dirents)"

definition fileextObj :: "DirentStat list \<Rightarrow> extensionObject" where
  "fileextObj dirents = countArrayFieldsToObject (fileExtensions dirents) True"

definition dirextObj :: "DirentStat list \<Rightarrow> extensionObject" where
  "dirextObj dirents = countArrayFieldsToObject (dirExtensions dirents) False"

text \<open>The list \<^verbatim>\<open>collections\<close> that is handed to \<^verbatim>\<open>verboseSummary\<close>.\<close>

definition collections :: "DirentStat list \<Rightarrow> (collection \<times> string) list" where
  "collections dirents =
     [(Names (brokenEntries dirents), ''broken''),
      (Names (symbolicLinks dirents), ''symlinks''),
      (Names (normalFiles dirents), ''files''),
      (Names (normalDirectories dirents), ''dirs''),
      (Names (zeroLenFilenames dirents), ''zero byte files''),
      (Names (dotFiles dirents), ''dot files''),
      (Names (dotDirectories dirents), ''dot dirs''),
      (Names (directoriesWithExtensions dirents), ''dirs with extensions''),
      (Names (unknownEntries dirents), ''neither files nor dirs''),
      (Counts (dirextObj dirents), ''dir extensions''),
      (Counts (fileextObj dirents), ''file extensions''),
      (Names (UUIDDirectories dirents), ''UUID dirs'')]"

definition whichDirectories :: "config \<Rightarrow> DirentStat list \<Rightarrow> string list" where
  "whichDirectories cfg dirents =
     normalDirectories dirents @ directoriesWithExtensions dirents @
     (if FOLLOWDOT cfg then dotDirectories dirents @ UUIDDirectories dirents else [])"

text \<open>The call of \<^verbatim>\<open>autoIdentify\<close> and the call of \<^verbatim>\<open>checkForCollections\<close>.\<close>

definition answers :: "DirentStat list \<Rightarrow> string list" where
  "answers dirents =
     autoIdentify (normalDirectories dirents) (dotDirectories dirents) (dirExtensions dirents)
       (normalFiles dirents) (dotFiles dirents) (fileExtensions dirents) (symbolicLinks dirents)"

definition foundCollection :: "DirentStat list \<Rightarrow> string option" where
  "foundCollection dirents = checkForCollections (fileextObj dirents) (fileExtensions dirents)"

subsection \<open>processFilename and processDirents\<close>

text \<open>
  The two functions call each other. A directory is entered one level deeper only while
  \<open>depth < MAXDEPTH\<close>, which is what makes the recursion end whatever the file system
  answers. The loop over \<^verbatim>\<open>whichDirectories\<close> tests the depth once for every child, as
  the program does.
\<close>

function
  processFilename :: "platform \<Rightarrow> config \<Rightarrow> nat \<Rightarrow> string \<Rightarrow> DirectoryInfo" and
  processDirents :: "platform \<Rightarrow> config \<Rightarrow> nat \<Rightarrow> string \<Rightarrow> DirentStat list \<Rightarrow> DirectoryInfo"
where
  "processFilename P cfg depth filename =
     (case lstat P filename of
        Inl ex \<Rightarrow> DirectoryInfo filename Error False (Some ex) None None None None None None
      | Inr s \<Rightarrow>
          if stats_isDirectory s then
            (case readdirAndStat P filename depth of
               Inl ex \<Rightarrow> DirectoryInfo filename Error False (Some ex) None None None None None None
             | Inr direntstats \<Rightarrow> processDirents P cfg depth filename direntstats)
          else if stats_isFile s then
            DirectoryInfo filename File True None None None None None None None
          else if stats_isSymbolicLink s then
            DirectoryInfo filename SymbolicLink True None None None None None None None
          else
            DirectoryInfo filename Unknown False None None None None None None None)"
| "processDirents P cfg depth filename dirents =
     (if length dirents > 0 then
        (let identified =
               (if answers dirents \<noteq> [] then True else foundCollection dirents \<noteq> None) in
         DirectoryInfo filename Directory identified None
           (Some (checkAdditionalNotes (dotDirectories dirents) (normalFiles dirents)
                    (dotFiles dirents)))
           (Some (shouldBeEmpty dirents))
           (if answers dirents \<noteq> [] then Some (answers dirents) else None)
           (if answers dirents \<noteq> [] then None else foundCollection dirents)
           (if \<not> identified \<and> VERBOSE cfg
            then Some (verboseSummary P depth (collections dirents)) else None)
           (Some
              (if \<not> identified then
                 concat
                   (map (\<lambda>child.
                           if int depth < MAXDEPTH cfg
                           then [processFilename P cfg (depth + 1) (path_join P filename child)]
                           else [])
                      (whichDirectories cfg dirents))
               else [])))
      else
        DirectoryInfo filename Directory False None None (Some (shouldBeEmpty dirents))
          None None None (Some []))"
  by pat_completeness auto

termination
  by (relation "measure (\<lambda>x. case x of
          Inl (P, cfg, depth, filename) \<Rightarrow> 2 * nat (MAXDEPTH cfg - int depth) + 1
        | Inr (P, cfg, depth, filename, dirents) \<Rightarrow> 2 * nat (MAXDEPTH cfg - int depth))")
     auto

declare processFilename.simps [simp del] processDirents.simps [simp del]

subsection \<open>processCommandline\<close>

text \<open>\<^verbatim>\<open>s.split("=")\<close>: the pieces between the equals signs, one more than there are signs.\<close>

fun split_eq :: "string \<Rightarrow> string list" where
  "split_eq [] = [[]]"
| "split_eq (c # cs) =
     (if c = CHR ''='' then [] # split_eq cs
      else (case split_eq cs of [] \<Rightarrow> [[c]] | p # ps \<Rightarrow> (c # p) # ps))"

text \<open>\<^verbatim>\<open>numpi === numnum\<close>: \<^verbatim>\<open>NaN\<close> is equal to nothing.\<close>

definition strict_equal :: "int option \<Rightarrow> rat option \<Rightarrow> bool" where
  "strict_equal numpi numnum =
     (case numpi of
        None \<Rightarrow> False
      | Some a \<Rightarrow> (case numnum of None \<Rightarrow> False | Some b \<Rightarrow> of_int a = b))"

text \<open>
  The body of the loop over \<^verbatim>\<open>argv\<close>. The state is the three module-level variables and
  the array \<^verbatim>\<open>args\<close>. \<^verbatim>\<open>MAXDEPTH = numnum\<close> is executed only for a \<open>numnum\<close> that is equal to
  an integer, and stores that integer.
\<close>

definition processArg :: "platform \<Rightarrow> config \<times> string list \<Rightarrow> string \<Rightarrow> config \<times> string list" where
  "processArg P st arg =
     (let cfg = fst st; args = snd st in
      if (case arg of [] \<Rightarrow> False | c # _ \<Rightarrow> c = CHR ''-'') then
        if length arg = 2 then
          (if arg ! 1 = CHR ''v'' then (cfg\<lparr>VERBOSE := True\<rparr>, args)
           else if arg ! 1 = CHR ''d'' then (cfg\<lparr>FOLLOWDOT := True\<rparr>, args)
           else (cfg, args))
        else
          (let kv = split_eq (drop 1 arg) in
           if length kv = 2 \<and> length (kv ! 0) = 1 then
             (if kv ! 0 ! 0 = CHR ''m'' then
                (let numpi = parseInt10 P (kv ! 1);
                     numnum = Number P (kv ! 1)
                 in if strict_equal numpi numnum
                    then (cfg\<lparr>MAXDEPTH := \<lfloor>the numnum\<rfloor>\<rparr>, args)
                    else (cfg, args))
              else (cfg, args))
           else (cfg, args))
      else (cfg, args @ [arg]))"

definition processCommandline :: "platform \<Rightarrow> config \<Rightarrow> string list \<Rightarrow> config \<times> string list" where
  "processCommandline P cfg argv = foldl (processArg P) (cfg, []) (drop 2 argv)"

subsection \<open>printResults\<close>

text \<open>
  What \<^verbatim>\<open>console.log\<close> receives: a line of text, or the diagnostic of a collation failure
  with the value of \<^verbatim>\<open>identificationFailures\<close> it is given.
\<close>

datatype console_line = Line string | Failures "string list option"

definition printText :: "nat \<Rightarrow> string \<Rightarrow> console_line" where
  "printText depth text = Line (replicate depth CHR '' '' @ text)"

definition printEntry :: "nat \<Rightarrow> string \<Rightarrow> console_line" where
  "printEntry depth entry = printText depth (''<'' @ entry @ ''>'')"

definition printAnswer :: "nat \<Rightarrow> string \<Rightarrow> console_line" where
  "printAnswer depth answer = printText depth (''=> '' @ answer)"

definition printError :: "nat \<Rightarrow> string \<Rightarrow> console_line" where
  "printError depth msg = printText depth (''* '' @ msg)"

text \<open>\<^verbatim>\<open>res.directoryInfos ?? []\<close>.\<close>

definition dis_of :: "DirectoryInfo \<Rightarrow> DirectoryInfo list" where
  "dis_of res = (case directoryInfos_of res of None \<Rightarrow> [] | Some l \<Rightarrow> l)"

lemma size_dis_of: "size_list size (dis_of res) < size res"
  by (cases res) (simp add: dis_of_def split: option.split)

lemma size_dis_of_mem: "res \<in> set results \<Longrightarrow> size_list size (dis_of res) < size_list size results"
  using size_dis_of [of res] size_list_estimation [of res results "size_list size (dis_of res)" size]
  by simp

function printResults :: "DirectoryInfo list \<Rightarrow> nat \<Rightarrow> console_line list" where
  "printResults results depth =
     concat (map (\<lambda>res.
       printEntry depth (name_of res) #
       (case kind_of res of
          Unknown \<Rightarrow>
            [printEntry depth (name_of res), printAnswer depth ''neither file nor directory'']
        | Error \<Rightarrow>
            (if (case error_of res of None \<Rightarrow> False | Some err \<Rightarrow> code err = Some ''ENOENT'')
             then [printError depth (''no such file: '' @ name_of res)]
             else [printError depth (''err: '' @
                     (case error_of res of None \<Rightarrow> ''undefined'' | Some err \<Rightarrow> message err))])
        | File \<Rightarrow> [printAnswer depth ''file'']
        | Directory \<Rightarrow>
            [printText depth ''{''] @
            (let dis = dis_of res in
             if length dis > 0 then
               (if identificationFailures_of res \<noteq> Some []
                then [Failures (identificationFailures_of res)] else []) @
               (case answers_of res of None \<Rightarrow> [] | Some anss \<Rightarrow> map (printAnswer depth) anss) @
               (case collections_of res of None \<Rightarrow> [] | Some c \<Rightarrow> [printAnswer depth c]) @
               (if \<not> identified_of res then [printAnswer depth ''unidentified''] else []) @
               printResults dis (depth + 1)
             else [printAnswer depth ''empty'']) @
            [printText depth ''}'']
        | SymbolicLink \<Rightarrow> [printEntry depth (name_of res), printAnswer depth ''symlink'']))
       results)"
  by pat_completeness auto

termination
  by (relation "measure (\<lambda>(results, depth). size_list size results)")
     (auto simp add: size_dis_of_mem)

declare printResults.simps [simp del]

subsection \<open>main\<close>

text \<open>
  \<^verbatim>\<open>processFilename\<close> catches every exception itself, so the \<^verbatim>\<open>catch\<close> of \<^verbatim>\<open>main\<close> is never
  entered. The result is what is printed.
\<close>

definition main :: "platform \<Rightarrow> string list \<Rightarrow> console_line list" where
  "main P argv =
     (let st = processCommandline P initial_config argv;
          results = map (processFilename P (fst st) 0) (snd st)
      in printResults results 0)"

subsection \<open>Result trees without collation failures\<close>

text \<open>
  The property of a result that the diagnostic of \<^verbatim>\<open>printResults\<close> tests: in the result
  and in all the results below it, a directory has an empty \<^verbatim>\<open>identificationFailures\<close>.
\<close>

fun no_failures :: "DirectoryInfo \<Rightarrow> bool" where
  "no_failures (DirectoryInfo n k i e a f ans c v d) =
     ((k = Directory \<longrightarrow> f = Some []) \<and>
      (\<forall>x\<in>set (case d of None \<Rightarrow> [] | Some l \<Rightarrow> l). no_failures x))"

subsection \<open>Entries for the examples\<close>

text \<open>
  The entries that \<^verbatim>\<open>readdirAndStat\<close> builds: a file with its size, a directory, a
  symbolic link, and an entry whose \<^verbatim>\<open>lstat\<close> failed with an error code.
\<close>

definition a_file :: "string \<Rightarrow> nat \<Rightarrow> DirentStat" where
  "a_file n sz = \<lparr>isFile = True, isDirectory = False, isSymbolicLink = False, name = n,
     size_bytes = Some sz, statError = None\<rparr>"

definition a_directory :: "string \<Rightarrow> DirentStat" where
  "a_directory n = \<lparr>isFile = False, isDirectory = True, isSymbolicLink = False, name = n,
     size_bytes = None, statError = None\<rparr>"

definition a_symlink :: "string \<Rightarrow> DirentStat" where
  "a_symlink n = \<lparr>isFile = False, isDirectory = False, isSymbolicLink = True, name = n,
     size_bytes = None, statError = None\<rparr>"

definition a_broken :: "string \<Rightarrow> string \<Rightarrow> DirentStat" where
  "a_broken n c = \<lparr>isFile = False, isDirectory = False, isSymbolicLink = False, name = n,
     size_bytes = None, statError = Some c\<rparr>"

text \<open>
  A platform for the examples: a directory \<^verbatim>\<open>root\<close> with the subdirectories \<^verbatim>\<open>.hid\<close>,
  \<^verbatim>\<open>pkg.d\<close> and \<^verbatim>\<open>sub\<close> and the file \<^verbatim>\<open>notes\<close>; \<^verbatim>\<open>sub\<close> holds the file \<^verbatim>\<open>go.mod\<close>, the
  other two are empty, and nothing else exists. Names are compared by character code.
  \<open>parseInt10\<close> and \<open>Number\<close> have the values of JavaScript on the strings they list
  (\<^verbatim>\<open>parseInt("0x0", 10)\<close> reads the digit 0 and stops at the x; \<^verbatim>\<open>Number("0x0")\<close> reads a
  hexadecimal literal) and are \<^verbatim>\<open>NaN\<close> on every other string; the examples use the listed
  strings and \<^verbatim>\<open>abc\<close> only.
\<close>

definition enoent :: js_error where
  "enoent = \<lparr>code = Some ''ENOENT'', message = ''ENOENT: no such file or directory''\<rparr>"

fun compare_codes :: "string \<Rightarrow> string \<Rightarrow> int" where
  "compare_codes [] [] = 0"
| "compare_codes [] (b # bs) = - 1"
| "compare_codes (a # as) [] = 1"
| "compare_codes (a # as) (b # bs) =
     (if a = b then compare_codes as bs
      else if (of_char a :: nat) < of_char b then - 1 else 1)"

definition example_platform :: platform where
  "example_platform =
     \<lparr>lstat = (\<lambda>p.
        if p \<in> set [''root'', ''root/sub'', ''root/pkg.d'', ''root/.hid''] then
          Inr \<lparr>stats_isFile = False, stats_isDirectory = True, stats_isSymbolicLink = False,
               stats_size = 64\<rparr>
        else if p \<in> set [''root/notes'', ''root/sub/go.mod''] then
          Inr \<lparr>stats_isFile = True, stats_isDirectory = False, stats_isSymbolicLink = False,
               stats_size = 5\<rparr>
        else Inl enoent),
      readdir = (\<lambda>p.
        if p = ''root'' then
          Inr [\<lparr>dirent_isFile = False, dirent_isDirectory = True, dirent_isSymbolicLink = False,
                dirent_name = ''.hid''\<rparr>,
               \<lparr>dirent_isFile = True, dirent_isDirectory = False, dirent_isSymbolicLink = False,
                dirent_name = ''notes''\<rparr>,
               \<lparr>dirent_isFile = False, dirent_isDirectory = True, dirent_isSymbolicLink = False,
                dirent_name = ''pkg.d''\<rparr>,
               \<lparr>dirent_isFile = False, dirent_isDirectory = True, dirent_isSymbolicLink = False,
                dirent_name = ''sub''\<rparr>]
        else if p = ''root/sub'' then
          Inr [\<lparr>dirent_isFile = True, dirent_isDirectory = False, dirent_isSymbolicLink = False,
                dirent_name = ''go.mod''\<rparr>]
        else if p \<in> set [''root/pkg.d'', ''root/.hid''] then Inr []
        else Inl enoent),
      path_join = (\<lambda>a b. a @ ''/'' @ b),
      localeCompare = compare_codes,
      parseInt10 = (\<lambda>s.
        if s = ''3'' then Some 3 else if s = ''1.5'' then Some 1
        else if s = ''0x10'' then Some 0 else if s = ''1e3'' then Some 1
        else if s = ''0x0'' then Some 0 else if s = ''2.0'' then Some 2
        else if s = ''2e0'' then Some 2 else None),
      Number = (\<lambda>s.
        if s = ''3'' then Some 3 else if s = ''1.5'' then Some (3 / 2)
        else if s = ''0x10'' then Some 16 else if s = ''1e3'' then Some 1000
        else if s = ''0x0'' then Some 0 else if s = ''2.0'' then Some 2
        else if s = ''2e0'' then Some 2 else if s = [] then Some 0 else None)\<rparr>"

lemmas entry_defs = a_file_def a_directory_def a_symlink_def a_broken_def

section \<open>Facts about collate and processDirents\<close>

subsection \<open>The buckets of collate\<close>

lemma some_test_takeWhile:
  "some_test ts d i (i + length ts) = i + length (takeWhile (\<lambda>t. \<not> t d) ts)"
proof (induction ts arbitrary: i)
  case Nil
  show ?case by simp
next
  case (Cons t ts)
  from Cons.IH [of "Suc i"] show ?case by simp
qed

lemma some_test_first:
  "some_test tests d 0 (length tests) = length (takeWhile (\<lambda>t. \<not> t d) tests)"
  using some_test_takeWhile [of tests d 0] by simp

lemma takeWhile_index_iff:
  assumes "i < length ts"
  shows "length (takeWhile (\<lambda>t. \<not> t d) ts) = i \<longleftrightarrow> (ts ! i) d \<and> (\<forall>j<i. \<not> (ts ! j) d)"
proof
  assume eq: "length (takeWhile (\<lambda>t. \<not> t d) ts) = i"
  have "\<not> \<not> (ts ! i) d"
    using nth_length_takeWhile [of "\<lambda>t. \<not> t d" ts] assms eq by simp
  moreover have "\<forall>j<i. \<not> (ts ! j) d"
  proof (intro allI impI)
    fix j assume "j < i"
    then have "j < length (takeWhile (\<lambda>t. \<not> t d) ts)" using eq by simp
    then have "takeWhile (\<lambda>t. \<not> t d) ts ! j \<in> set (takeWhile (\<lambda>t. \<not> t d) ts)"
      by (rule nth_mem)
    then have "\<not> (takeWhile (\<lambda>t. \<not> t d) ts ! j) d" by (rule set_takeWhileD [THEN conjunct2])
    then show "\<not> (ts ! j) d"
      using takeWhile_nth [OF \<open>j < length (takeWhile (\<lambda>t. \<not> t d) ts)\<close>] by simp
  qed
  ultimately show "(ts ! i) d \<and> (\<forall>j<i. \<not> (ts ! j) d)" by simp
next
  assume h: "(ts ! i) d \<and> (\<forall>j<i. \<not> (ts ! j) d)"
  have "i \<le> length (takeWhile (\<lambda>t. \<not> t d) ts)"
    using h assms by (intro length_takeWhile_less_P_nth) auto
  moreover have "\<not> i < length (takeWhile (\<lambda>t. \<not> t d) ts)"
  proof
    assume lt: "i < length (takeWhile (\<lambda>t. \<not> t d) ts)"
    then have "takeWhile (\<lambda>t. \<not> t d) ts ! i \<in> set (takeWhile (\<lambda>t. \<not> t d) ts)"
      by (rule nth_mem)
    then have "\<not> (takeWhile (\<lambda>t. \<not> t d) ts ! i) d" by (rule set_takeWhileD [THEN conjunct2])
    then show False using takeWhile_nth [OF lt] h by simp
  qed
  ultimately show "length (takeWhile (\<lambda>t. \<not> t d) ts) = i" by simp
qed

lemma takeWhile_all_iff:
  "length (takeWhile (\<lambda>t. \<not> t d) ts) = length ts \<longleftrightarrow> (\<forall>t\<in>set ts. \<not> t d)"
  by (induction ts) auto

lemma length_foldl_collate:
  "length (foldl (\<lambda>a d. let index = f d in a[index := a ! index @ [d]]) a0 xs) = length a0"
  by (induction xs arbitrary: a0) (simp_all add: Let_def)

lemma length_collate: "length (collate input tests) = length tests + 1"
  by (simp add: collate_def length_foldl_collate)

lemma collate_snoc:
  "collate (xs @ [x]) tests =
     (collate xs tests)[some_test tests x 0 (length tests) :=
        collate xs tests ! some_test tests x 0 (length tests) @ [x]]"
  by (simp add: collate_def Let_def)

lemma collate_nth:
  "i \<le> length tests \<Longrightarrow>
   collate input tests ! i = filter (\<lambda>d. length (takeWhile (\<lambda>t. \<not> t d) tests) = i) input"
proof (induction input rule: rev_induct)
  case Nil
  then show ?case by (simp add: collate_def nth_Cons split: nat.split)
next
  case (snoc x xs)
  have le: "length (takeWhile (\<lambda>t. \<not> t x) tests) \<le> length tests"
    by (rule length_takeWhile_le)
  show ?case
    using snoc le
    by (simp add: collate_snoc some_test_first length_collate nth_list_update)
qed


lemma length_dirent_tests: "length dirent_tests = 9"
  by (simp add: dirent_tests_def)

lemma dirent_tests_exhaustive: "\<exists>t\<in>set dirent_tests. t d"
  by (auto simp add: dirent_tests_def)

lemma sum_length_update:
  "k < length l \<Longrightarrow> sum_list (map length (l[k := l ! k @ [x]])) = Suc (sum_list (map length l))"
proof (induction l arbitrary: k)
  case Nil
  then show ?case by simp
next
  case (Cons a l)
  then show ?case by (cases k) simp_all
qed

lemma some_test_le: "some_test tests d 0 (length tests) \<le> length tests"
  by (simp add: some_test_first length_takeWhile_le)

lemma sum_length_collate: "sum_list (map length (collate input tests)) = length input"
proof (induction input rule: rev_induct)
  case Nil
  show ?case by (simp add: collate_def)
next
  case (snoc x xs)
  have "some_test tests x 0 (length tests) < length (collate xs tests)"
    using some_test_le [of tests x] by (simp add: length_collate)
  then show ?case using snoc by (simp add: collate_snoc sum_length_update)
qed

lemma collate_last_empty: "collate dirents dirent_tests ! 9 = []"
proof -
  have "length (takeWhile (\<lambda>t. \<not> t d) dirent_tests) \<noteq> 9" for d
    using takeWhile_all_iff [of d dirent_tests] dirent_tests_exhaustive [of d]
    by (auto simp add: length_dirent_tests)
  then show ?thesis
    using collate_nth [of 9 dirent_tests dirents] by (simp add: length_dirent_tests)
qed

lemma collate_dirent_nth:
  assumes "i < 9"
  shows "collate dirents dirent_tests ! i =
         filter (\<lambda>d. (dirent_tests ! i) d \<and> (\<forall>j<i. \<not> (dirent_tests ! j) d)) dirents"
proof -
  have "length (takeWhile (\<lambda>t. \<not> t d) dirent_tests) = i \<longleftrightarrow>
        (dirent_tests ! i) d \<and> (\<forall>j<i. \<not> (dirent_tests ! j) d)" for d
    using assms by (intro takeWhile_index_iff) (simp add: length_dirent_tests)
  then show ?thesis
    using collate_nth [of i dirent_tests dirents] assms by (simp add: length_dirent_tests)
qed

lemma buckets_nth: "i < 10 \<Longrightarrow> buckets dirents ! i = map name (collate dirents dirent_tests ! i)"
  by (simp add: buckets_def length_collate length_dirent_tests)

lemma shouldBeEmpty_Nil: "shouldBeEmpty dirents = []"
  by (simp add: shouldBeEmpty_def buckets_nth collate_last_empty)

subsection \<open>The fields of the result of processDirents\<close>

lemma identificationFailures_processDirents:
  "identificationFailures_of (processDirents P cfg depth filename dirents) =
   Some (shouldBeEmpty dirents)"
  by (simp add: processDirents.simps Let_def)

lemma identified_processDirents:
  "identified_of (processDirents P cfg depth filename dirents) \<longleftrightarrow>
     dirents \<noteq> [] \<and> (answers dirents \<noteq> [] \<or> foundCollection dirents \<noteq> None)"
  by (simp add: processDirents.simps Let_def)

lemma additionalInfo_processDirents:
  "additionalInfo_of (processDirents P cfg depth filename dirents) =
     (if dirents = [] then None
      else Some (checkAdditionalNotes (dotDirectories dirents) (normalFiles dirents)
                   (dotFiles dirents)))"
  by (simp add: processDirents.simps Let_def)

lemma answers_processDirents:
  "answers_of (processDirents P cfg depth filename dirents) =
     (if dirents \<noteq> [] \<and> answers dirents \<noteq> [] then Some (answers dirents) else None)"
  by (simp add: processDirents.simps Let_def)

lemma collections_processDirents:
  "collections_of (processDirents P cfg depth filename dirents) =
     (if dirents \<noteq> [] \<and> answers dirents = [] then foundCollection dirents else None)"
  by (simp add: processDirents.simps Let_def)

lemma name_processDirents: "name_of (processDirents P cfg depth filename dirents) = filename"
  by (simp add: processDirents.simps Let_def)

lemma kind_processDirents: "kind_of (processDirents P cfg depth filename dirents) = Directory"
  by (simp add: processDirents.simps Let_def)

lemma name_processFilename: "name_of (processFilename P cfg depth filename) = filename"
  by (simp add: processFilename.simps name_processDirents split: sum.split)

lemma directoryInfos_processDirents:
  "directoryInfos_of (processDirents P cfg depth filename dirents) =
     Some (if dirents \<noteq> [] \<and> answers dirents = [] \<and> foundCollection dirents = None \<and>
              int depth < MAXDEPTH cfg
           then map (\<lambda>child. processFilename P cfg (depth + 1) (path_join P filename child))
                  (whichDirectories cfg dirents)
           else [])"
proof -
  have 1: "concat (map (\<lambda>child. [f child]) xs) = map f xs" for f :: "string \<Rightarrow> DirectoryInfo" and xs
    by (induction xs) simp_all
  have 2: "concat (map (\<lambda>child. []) xs) = ([] :: DirectoryInfo list)" for xs :: "string list"
    by (induction xs) simp_all
  show ?thesis
    by (simp add: processDirents.simps Let_def 1 2)
qed

subsection \<open>The diagnostic of printResults\<close>

lemma no_failures_iff:
  "no_failures res \<longleftrightarrow>
     (kind_of res = Directory \<longrightarrow> identificationFailures_of res = Some []) \<and>
     (\<forall>x\<in>set (dis_of res). no_failures x)"
  by (cases res) (simp add: dis_of_def)

lemma no_failures_results:
  "no_failures (processFilename P cfg depth filename)"
  "no_failures (processDirents P cfg depth filename dirents)"
proof (induction P cfg depth filename and P cfg depth filename dirents
    rule: processFilename_processDirents.induct)
  case (1 P cfg depth filename)
  then show ?case
    by (simp add: processFilename.simps split: sum.split)
next
  case (2 P cfg depth filename dirents)
  show ?case
  proof (cases "0 < length dirents \<and> answers dirents = [] \<and> foundCollection dirents = None \<and>
      int depth < MAXDEPTH cfg")
    case True
    then have "\<forall>xa\<in>set (whichDirectories cfg dirents).
        no_failures (processFilename P cfg (depth + 1) (path_join P filename xa))"
      using "2.IH" [of False] by simp
    then show ?thesis
      unfolding no_failures_iff [of "processDirents P cfg depth filename dirents"]
      by (auto simp add: identificationFailures_processDirents shouldBeEmpty_Nil dis_of_def
          directoryInfos_processDirents)
  next
    case False
    then show ?thesis
      unfolding no_failures_iff [of "processDirents P cfg depth filename dirents"]
      by (auto simp add: identificationFailures_processDirents shouldBeEmpty_Nil dis_of_def
          directoryInfos_processDirents)
  qed
qed

lemma printResults_no_failures:
  "\<forall>r\<in>set results. no_failures r \<Longrightarrow> Failures fs \<notin> set (printResults results depth)"
proof (induction results depth rule: printResults.induct)
  case (1 results depth)
  have "Failures fs \<notin> set (printResults (dis_of res) (depth + 1))"
    if "res \<in> set results" "kind_of res = Directory" "0 < length (dis_of res)" for res
  proof -
    have "\<forall>r\<in>set (dis_of res). no_failures r"
      using "1.prems" that(1) no_failures_iff [of res] by blast
    then show ?thesis using "1.IH" [OF that(1) that(2) refl that(3)] by simp
  qed
  moreover have "identificationFailures_of res = Some []"
    if "res \<in> set results" "kind_of res = Directory" for res
    using "1.prems" that no_failures_iff [of res] by blast
  ultimately have step: "Failures fs \<notin> set (printResults (dis_of res) (depth + 1)) \<and>
      identificationFailures_of res = Some []"
    if "res \<in> set results" "kind_of res = Directory" "0 < length (dis_of res)" for res
    using that by blast
  show ?case
  proof (subst printResults.simps, unfold set_concat set_map, intro notI, elim UN_E imageE)
    fix ls res
    assume m: "Failures fs \<in> set ls" and r: "res \<in> set results"
      and ls: "ls = printEntry depth (name_of res) #
       (case kind_of res of
          Unknown \<Rightarrow>
            [printEntry depth (name_of res), printAnswer depth ''neither file nor directory'']
        | Error \<Rightarrow>
            (if (case error_of res of None \<Rightarrow> False | Some err \<Rightarrow> code err = Some ''ENOENT'')
             then [printError depth (''no such file: '' @ name_of res)]
             else [printError depth (''err: '' @
                     (case error_of res of None \<Rightarrow> ''undefined'' | Some err \<Rightarrow> message err))])
        | File \<Rightarrow> [printAnswer depth ''file'']
        | Directory \<Rightarrow>
            [printText depth ''{''] @
            (let dis = dis_of res in
             if length dis > 0 then
               (if identificationFailures_of res \<noteq> Some []
                then [Failures (identificationFailures_of res)] else []) @
               (case answers_of res of None \<Rightarrow> [] | Some anss \<Rightarrow> map (printAnswer depth) anss) @
               (case collections_of res of None \<Rightarrow> [] | Some c \<Rightarrow> [printAnswer depth c]) @
               (if \<not> identified_of res then [printAnswer depth ''unidentified''] else []) @
               printResults dis (depth + 1)
             else [printAnswer depth ''empty'']) @
            [printText depth ''}'']
        | SymbolicLink \<Rightarrow> [printEntry depth (name_of res), printAnswer depth ''symlink''])"
    show False
    proof (cases "kind_of res")
      case Unknown
      with m ls show False by (simp add: printEntry_def printAnswer_def printText_def)
    next
      case Error
      with m ls show False by (simp add: printEntry_def printError_def printText_def split: if_splits)
    next
      case File
      with m ls show False by (simp add: printEntry_def printAnswer_def printText_def)
    next
      case SymbolicLink
      with m ls show False by (simp add: printEntry_def printAnswer_def printText_def)
    next
      case Directory
      show False
      proof (cases "0 < length (dis_of res)")
        case True
        from step [OF r Directory True] m ls Directory True show False
          by (auto simp add: printEntry_def printAnswer_def printText_def Let_def
              split: option.splits if_splits)
      next
        case False
        with m ls Directory show False
          by (simp add: printEntry_def printAnswer_def printText_def Let_def)
      qed
    qed
  qed
qed

lemma main_no_failures: "Failures fs \<notin> set (main P argv)"
  unfolding main_def Let_def
  by (rule printResults_no_failures) (simp add: no_failures_results)

section \<open>The entry partitioner\<close>

text \<open>
  Claim C1. For every list of entries, whatever the three type tests and the error field
  of each entry say: \<^verbatim>\<open>collate\<close> with the nine tests of \<^verbatim>\<open>processDirents\<close> returns ten
  buckets; bucket \<open>i\<close> holds, in the order of the listing, the entries that pass test \<open>i\<close>
  and none of the tests before it; the tenth, catch-all bucket is empty; every entry of the
  listing is in exactly one bucket; two different buckets share no entry; the buckets
  together hold the entries of the listing, as many as the listing has; the arrays of names
  that the program goes on with are the names of these buckets;
  \<^verbatim>\<open>identificationFailures\<close>, which the diagnostic of \<^verbatim>\<open>printResults\<close> looks at, is empty;
  and whatever the command line and the file system are, \<^verbatim>\<open>main\<close> never prints that
  diagnostic.
\<close>

theorem entry_partition:
  "length (collate dirents dirent_tests) = 10 \<and>
   (\<forall>i<9. collate dirents dirent_tests ! i =
      filter (\<lambda>d. (dirent_tests ! i) d \<and> (\<forall>j<i. \<not> (dirent_tests ! j) d)) dirents) \<and>
   collate dirents dirent_tests ! 9 = [] \<and>
   (\<forall>d\<in>set dirents. \<exists>!i. i < 10 \<and> d \<in> set (collate dirents dirent_tests ! i)) \<and>
   (\<forall>i<10. \<forall>j<10. i \<noteq> j \<longrightarrow>
      set (collate dirents dirent_tests ! i) \<inter> set (collate dirents dirent_tests ! j) = {}) \<and>
   (\<Union>i<10. set (collate dirents dirent_tests ! i)) = set dirents \<and>
   sum_list (map length (collate dirents dirent_tests)) = length dirents \<and>
   (\<forall>i<10. buckets dirents ! i = map name (collate dirents dirent_tests ! i)) \<and>
   shouldBeEmpty dirents = [] \<and>
   identificationFailures_of (processDirents P cfg depth filename dirents) = Some [] \<and>
   (\<forall>fs. Failures fs \<notin> set (main P argv))"
proof -
  let ?b = "\<lambda>i. collate dirents dirent_tests ! i"
  let ?k = "\<lambda>d. length (takeWhile (\<lambda>t. \<not> t d) dirent_tests)"
  have nth: "?b i = filter (\<lambda>d. ?k d = i) dirents" if "i < 10" for i
    using that collate_nth [of i dirent_tests dirents] by (simp add: length_dirent_tests)
  have k_less: "?k d < 10" for d
    using length_takeWhile_le [of "\<lambda>t. \<not> t d" dirent_tests] by (simp add: length_dirent_tests)
  have mem: "d \<in> set (?b i) \<longleftrightarrow> d \<in> set dirents \<and> ?k d = i" if "i < 10" for i d
    using nth [OF that] by simp
  have c1: "length (collate dirents dirent_tests) = 10"
    by (simp add: length_collate length_dirent_tests)
  have c2: "\<forall>i<9. ?b i =
      filter (\<lambda>d. (dirent_tests ! i) d \<and> (\<forall>j<i. \<not> (dirent_tests ! j) d)) dirents"
    by (simp add: collate_dirent_nth)
  have c3: "?b 9 = []" by (rule collate_last_empty)
  have c4: "\<forall>d\<in>set dirents. \<exists>!i. i < 10 \<and> d \<in> set (?b i)"
  proof
    fix d assume d: "d \<in> set dirents"
    show "\<exists>!i. i < 10 \<and> d \<in> set (?b i)"
    proof (rule ex1I [of _ "?k d"])
      show "?k d < 10 \<and> d \<in> set (?b (?k d))" using d k_less [of d] mem by simp
    next
      fix i assume "i < 10 \<and> d \<in> set (?b i)"
      then show "i = ?k d" using mem [of i d] by simp
    qed
  qed
  have c5: "\<forall>i<10. \<forall>j<10. i \<noteq> j \<longrightarrow> set (?b i) \<inter> set (?b j) = {}"
    using mem by auto
  have c6: "(\<Union>i<10. set (?b i)) = set dirents"
  proof
    show "(\<Union>i<10. set (?b i)) \<subseteq> set dirents" using mem by auto
  next
    show "set dirents \<subseteq> (\<Union>i<10. set (?b i))"
    proof
      fix d assume "d \<in> set dirents"
      then have "d \<in> set (?b (?k d))" using mem k_less [of d] by simp
      then show "d \<in> (\<Union>i<10. set (?b i))" using k_less [of d] by blast
    qed
  qed
  have c7: "sum_list (map length (collate dirents dirent_tests)) = length dirents"
    by (rule sum_length_collate)
  have c8: "\<forall>i<10. buckets dirents ! i = map name (?b i)"
    by (simp add: buckets_nth)
  have c9: "shouldBeEmpty dirents = []" by (rule shouldBeEmpty_Nil)
  have c10: "identificationFailures_of (processDirents P cfg depth filename dirents) = Some []"
    by (simp add: identificationFailures_processDirents shouldBeEmpty_Nil)
  have c11: "\<forall>fs. Failures fs \<notin> set (main P argv)"
    by (simp add: main_no_failures)
  show ?thesis
    apply (intro conjI)
              apply (rule c1)
             apply (rule c2)
            apply (rule c3)
           apply (rule c4)
          apply (rule c5)
         apply (rule c6)
        apply (rule c7)
       apply (rule c8)
      apply (rule c9)
     apply (rule c10)
    apply (rule c11)
    done
qed

theorem entry_partition_witness:
  "collate [a_file ''a.txt'' 3, a_directory ''.git'', a_broken ''x'' ''ENOENT''] dirent_tests ! 4
     = [a_file ''a.txt'' 3] \<and>
   collate [a_file ''a.txt'' 3, a_directory ''.git'', a_broken ''x'' ''ENOENT''] dirent_tests ! 9
     = [] \<and>
   a_file ''a.txt'' 3 \<in> set [a_file ''a.txt'' 3, a_directory ''.git'', a_broken ''x'' ''ENOENT''] \<and>
   (\<exists>!i. i < 10 \<and> a_file ''a.txt'' 3 \<in>
      set (collate [a_file ''a.txt'' 3, a_directory ''.git'', a_broken ''x'' ''ENOENT'']
             dirent_tests ! i))"
proof -
  let ?ds = "[a_file ''a.txt'' 3, a_directory ''.git'', a_broken ''x'' ''ENOENT'']"
  note h = entry_partition [of ?ds]
  have four: "(4::nat) < 9" by simp
  have mem: "a_file ''a.txt'' 3 \<in> set ?ds" by simp
  note h2 = h [THEN conjunct2, THEN conjunct1, rule_format, OF four]
  note h3 = h [THEN conjunct2, THEN conjunct2, THEN conjunct1]
  note h4 = h [THEN conjunct2, THEN conjunct2, THEN conjunct2, THEN conjunct1, THEN bspec, OF mem]
  have b4: "collate ?ds dirent_tests ! 4 = [a_file ''a.txt'' 3]"
    unfolding h2
    by (simp add: dirent_tests_def entry_defs first_is_dot_def eval_nat_numeral All_less_Suc)
  show ?thesis
    apply (intro conjI)
       apply (rule b4)
      apply (rule h3)
     apply (rule mem)
    apply (rule h4)
    done
qed

subsection \<open>The buckets as filters of the listing\<close>

lemma bucket_filter:
  "i < 9 \<Longrightarrow> buckets dirents ! i =
     map name (filter (\<lambda>d. (dirent_tests ! i) d \<and> (\<forall>j<i. \<not> (dirent_tests ! j) d)) dirents)"
  by (simp add: buckets_nth collate_dirent_nth)

lemma bucket_filter_cong:
  assumes "i < 9"
    and "\<And>d. ((dirent_tests ! i) d \<and> (\<forall>j<i. \<not> (dirent_tests ! j) d)) = Q d"
  shows "buckets dirents ! i = map name (filter Q dirents)"
  using bucket_filter [OF assms(1), of dirents] assms(2) by simp

lemma brokenEntries_eq:
  "brokenEntries dirents = map name (filter (\<lambda>d. statError d \<noteq> None) dirents)"
  unfolding brokenEntries_def
  by (rule bucket_filter_cong) (auto simp add: dirent_tests_def)

lemma symbolicLinks_eq:
  "symbolicLinks dirents =
     map name (filter (\<lambda>d. statError d = None \<and> isSymbolicLink d) dirents)"
  unfolding symbolicLinks_def
  by (rule bucket_filter_cong) (auto simp add: dirent_tests_def eval_nat_numeral All_less_Suc)

lemma unknownEntries_eq:
  "unknownEntries dirents =
     map name (filter (\<lambda>d. statError d = None \<and> \<not> isSymbolicLink d \<and>
                           \<not> isFile d \<and> \<not> isDirectory d) dirents)"
  unfolding unknownEntries_def
  by (rule bucket_filter_cong) (auto simp add: dirent_tests_def eval_nat_numeral All_less_Suc)

lemma dotFiles_eq:
  "dotFiles dirents =
     map name (filter (\<lambda>d. statError d = None \<and> \<not> isSymbolicLink d \<and>
                           isFile d \<and> first_is_dot (name d)) dirents)"
  unfolding dotFiles_def
  by (rule bucket_filter_cong) (auto simp add: dirent_tests_def eval_nat_numeral All_less_Suc)

lemma normalFiles_eq:
  "normalFiles dirents =
     map name (filter (\<lambda>d. statError d = None \<and> \<not> isSymbolicLink d \<and>
                           isFile d \<and> \<not> first_is_dot (name d)) dirents)"
  unfolding normalFiles_def
  by (rule bucket_filter_cong) (auto simp add: dirent_tests_def eval_nat_numeral All_less_Suc)

lemma dotDirectories_eq:
  "dotDirectories dirents =
     map name (filter (\<lambda>d. statError d = None \<and> \<not> isSymbolicLink d \<and> \<not> isFile d \<and>
                           isDirectory d \<and> first_is_dot (name d)) dirents)"
  unfolding dotDirectories_def
  by (rule bucket_filter_cong) (auto simp add: dirent_tests_def eval_nat_numeral All_less_Suc)

lemma directoriesWithExtensions_eq:
  "directoriesWithExtensions dirents =
     map name (filter (\<lambda>d. statError d = None \<and> \<not> isSymbolicLink d \<and> \<not> isFile d \<and>
                           isDirectory d \<and> \<not> first_is_dot (name d) \<and>
                           includes_dot (name d)) dirents)"
  unfolding directoriesWithExtensions_def
  by (rule bucket_filter_cong) (auto simp add: dirent_tests_def eval_nat_numeral All_less_Suc)

lemma UUIDDirectories_eq:
  "UUIDDirectories dirents =
     map name (filter (\<lambda>d. statError d = None \<and> \<not> isSymbolicLink d \<and> \<not> isFile d \<and>
                           isDirectory d \<and> \<not> first_is_dot (name d) \<and>
                           \<not> includes_dot (name d) \<and> UUIDRegex_test (name d)) dirents)"
  unfolding UUIDDirectories_def
  by (rule bucket_filter_cong) (auto simp add: dirent_tests_def eval_nat_numeral All_less_Suc)

lemma normalDirectories_eq:
  "normalDirectories dirents =
     map name (filter (\<lambda>d. statError d = None \<and> \<not> isSymbolicLink d \<and> \<not> isFile d \<and>
                           isDirectory d \<and> \<not> first_is_dot (name d) \<and>
                           \<not> includes_dot (name d) \<and> \<not> UUIDRegex_test (name d)) dirents)"
  unfolding normalDirectories_def
  by (rule bucket_filter_cong) (auto simp add: dirent_tests_def eval_nat_numeral All_less_Suc)

lemmas bucket_eqs = brokenEntries_eq symbolicLinks_eq unknownEntries_eq dotFiles_eq
  normalFiles_eq dotDirectories_eq directoriesWithExtensions_eq UUIDDirectories_eq
  normalDirectories_eq

section \<open>The signature table\<close>

lemma includesAll_iff: "includesAll haystack needles \<longleftrightarrow> set needles \<subseteq> set haystack"
  by (auto simp add: includesAll_def list_all_iff list_ex_iff)

lemma includesAny_iff: "includesAny haystack needles \<longleftrightarrow> (\<exists>n\<in>set needles. n \<in> set haystack)"
  by (auto simp add: includesAny_def list_ex_iff)

lemma includes_str_iff: "includes_str haystack (n # ns) \<longleftrightarrow> n \<in> set haystack"
  by (simp add: includes_str_def)

lemma includes_str_Nil: "\<not> includes_str haystack []"
  by (simp add: includes_str_def)

lemma foldl_push:
  "foldl (\<lambda>acc e. if p e then acc @ [f e] else acc) acc0 xs = acc0 @ map f (filter p xs)"
  by (induction xs arbitrary: acc0) simp_all

lemma autoIdentify_filter:
  "autoIdentify nd dd de nf df fe sl =
     map entry_name (filter (\<lambda>e. steps_pass (entry_steps e)) (table nd dd de nf df fe sl))"
  by (simp add: autoIdentify_def foldl_push)

lemma steps_pass_iff:
  "steps_pass ss \<longleftrightarrow> (\<forall>(haystack, check, needles)\<in>set ss. check haystack needles)"
  by (simp add: steps_pass_def list_all_iff)

lemma table_shapes:
  "\<forall>e\<in>set (table nd dd de nf df fe sl). \<forall>(haystack, check, needles)\<in>set (entry_steps e).
     haystack \<in> {nd, dd, de, nf, df, fe, sl} \<and>
     (check = includes_str \<and> length needles = 1 \<or> check = includesAll \<or> check = includesAny)"
  by (simp add: table_def)

lemma distinct_table_names: "distinct (map entry_name (table nd dd de nf df fe sl))"
  by (simp add: table_def)

text \<open>
  Claim C2. For all seven arrays that \<^verbatim>\<open>autoIdentify\<close> can receive: the result is the list
  of the names of exactly those entries of the table all of whose steps pass, each step
  being its test applied to its array and its needles, in the order of the table (nothing
  stops at the first match); every step of the table searches one of the seven arrays with
  one of the three tests, and a step with \<^verbatim>\<open>includes\<close> has a single needle;
  \<^verbatim>\<open>includesAll\<close> holds when every needle is in the array, \<^verbatim>\<open>includesAny\<close> when some needle
  is, and \<^verbatim>\<open>includes\<close> with one needle when that needle is.
\<close>

theorem autoIdentify_all_matches:
  "autoIdentify nd dd de nf df fe sl =
     map entry_name
       (filter (\<lambda>e. \<forall>(haystack, check, needles)\<in>set (entry_steps e). check haystack needles)
          (table nd dd de nf df fe sl)) \<and>
   (\<forall>e\<in>set (table nd dd de nf df fe sl). \<forall>(haystack, check, needles)\<in>set (entry_steps e).
      haystack \<in> {nd, dd, de, nf, df, fe, sl} \<and>
      (check = includes_str \<and> length needles = 1 \<or> check = includesAll \<or>
       check = includesAny)) \<and>
   (\<forall>haystack needles. includesAll haystack needles \<longleftrightarrow> set needles \<subseteq> set haystack) \<and>
   (\<forall>haystack needles.
      includesAny haystack needles \<longleftrightarrow> (\<exists>n\<in>set needles. n \<in> set haystack)) \<and>
   (\<forall>haystack n. includes_str haystack [n] \<longleftrightarrow> n \<in> set haystack)"
proof -
  have a: "autoIdentify nd dd de nf df fe sl =
     map entry_name
       (filter (\<lambda>e. \<forall>(haystack, check, needles)\<in>set (entry_steps e). check haystack needles)
          (table nd dd de nf df fe sl))"
    by (simp add: autoIdentify_filter steps_pass_iff)
  note b = table_shapes [of nd dd de nf df fe sl]
  have c: "\<forall>haystack needles. includesAll haystack needles \<longleftrightarrow> set needles \<subseteq> set haystack"
    by (simp add: includesAll_iff)
  have d: "\<forall>haystack needles.
      includesAny haystack needles \<longleftrightarrow> (\<exists>n\<in>set needles. n \<in> set haystack)"
    by (simp add: includesAny_iff)
  have e: "\<forall>haystack n. includes_str haystack [n] \<longleftrightarrow> n \<in> set haystack"
    by (simp add: includes_str_iff)
  show ?thesis
    apply (intro conjI)
        apply (rule a)
       apply (rule b)
      apply (rule c)
     apply (rule d)
    apply (rule e)
    done
qed

theorem autoIdentify_all_matches_witness:
  "autoIdentify [''src''] [] [] [''Cargo.lock'', ''Cargo.toml'', ''go.mod''] [] [] [] =
     [''Go module'', ''Rust project'']"
proof -
  note h = autoIdentify_all_matches
    [of "[''src'']" "[]" "[]" "[''Cargo.lock'', ''Cargo.toml'', ''go.mod'']" "[]" "[]" "[]"]
  show ?thesis
    unfolding h [THEN conjunct1]
    by (simp add: table_def includes_str_def includesAll_def includesAny_def)
qed

section \<open>The additional notes\<close>

text \<open>
  Claim C8. For all buckets: the note \<open>GitRepository\<close> is in the result of
  \<^verbatim>\<open>checkAdditionalNotes\<close> exactly when \<^verbatim>\<open>.git\<close> is among the dot directories and \<^verbatim>\<open>.github\<close>
  is not; \<open>GitHubRepository\<close> exactly when both are; \<open>MacFinderFiles\<close> exactly when a normal
  file is named \<^verbatim>\<open>Icon\<close> followed by a carriage return or a dot file is named
  \<^verbatim>\<open>.DS_Store\<close>; no note is given twice; a Git or GitHub note and the Finder note occur
  together; \<^verbatim>\<open>processDirents\<close> stores the notes of its buckets for every listing that is not
  empty; and the field \<^verbatim>\<open>identified\<close> of its result is decided by the signatures and the
  collection alone.
\<close>

theorem additional_notes:
  "(GitRepository \<in> set (checkAdditionalNotes dd nf df) \<longleftrightarrow>
      ''.git'' \<in> set dd \<and> ''.github'' \<notin> set dd) \<and>
   (GitHubRepository \<in> set (checkAdditionalNotes dd nf df) \<longleftrightarrow>
      ''.git'' \<in> set dd \<and> ''.github'' \<in> set dd) \<and>
   (MacFinderFiles \<in> set (checkAdditionalNotes dd nf df) \<longleftrightarrow>
      ''Icon'' @ [CHR 0x0D] \<in> set nf \<or> ''.DS_Store'' \<in> set df) \<and>
   distinct (checkAdditionalNotes dd nf df) \<and>
   checkAdditionalNotes [''.git'', ''.github''] [] [''.DS_Store''] =
     [GitHubRepository, MacFinderFiles] \<and>
   checkAdditionalNotes [''.git''] [''Icon'' @ [CHR 0x0D]] [] =
     [GitRepository, MacFinderFiles] \<and>
   additionalInfo_of (processDirents P cfg depth filename dirents) =
     (if dirents = [] then None
      else Some (checkAdditionalNotes (dotDirectories dirents) (normalFiles dirents)
                   (dotFiles dirents))) \<and>
   (identified_of (processDirents P cfg depth filename dirents) \<longleftrightarrow>
      dirents \<noteq> [] \<and> (answers dirents \<noteq> [] \<or> foundCollection dirents \<noteq> None))"
proof -
  have a: "GitRepository \<in> set (checkAdditionalNotes dd nf df) \<longleftrightarrow>
      ''.git'' \<in> set dd \<and> ''.github'' \<notin> set dd"
    by (simp add: checkAdditionalNotes_def includes_str_iff)
  have b: "GitHubRepository \<in> set (checkAdditionalNotes dd nf df) \<longleftrightarrow>
      ''.git'' \<in> set dd \<and> ''.github'' \<in> set dd"
    by (simp add: checkAdditionalNotes_def includes_str_iff)
  have c: "MacFinderFiles \<in> set (checkAdditionalNotes dd nf df) \<longleftrightarrow>
      ''Icon'' @ [CHR 0x0D] \<in> set nf \<or> ''.DS_Store'' \<in> set df"
    by (simp add: checkAdditionalNotes_def includes_str_iff)
  have d: "distinct (checkAdditionalNotes dd nf df)"
    by (simp add: checkAdditionalNotes_def)
  have e: "checkAdditionalNotes [''.git'', ''.github''] [] [''.DS_Store''] =
     [GitHubRepository, MacFinderFiles]"
    by (simp add: checkAdditionalNotes_def includes_str_iff)
  have f: "checkAdditionalNotes [''.git''] [''Icon'' @ [CHR 0x0D]] [] =
     [GitRepository, MacFinderFiles]"
    by (simp add: checkAdditionalNotes_def includes_str_iff)
  note g = additionalInfo_processDirents [of P cfg depth filename dirents]
  note h = identified_processDirents [of P cfg depth filename dirents]
  show ?thesis
    apply (intro conjI)
           apply (rule a)
          apply (rule b)
         apply (rule c)
        apply (rule d)
       apply (rule e)
      apply (rule f)
     apply (rule g)
    apply (rule h)
    done
qed

theorem additional_notes_witness:
  "additionalInfo_of (processDirents example_platform initial_config 0 ''root''
      [a_directory ''.git'', a_directory ''.github'', a_file ''.DS_Store'' 6148]) =
     Some [GitHubRepository, MacFinderFiles] \<and>
   \<not> identified_of (processDirents example_platform initial_config 0 ''root''
      [a_directory ''.git'', a_directory ''.github'', a_file ''.DS_Store'' 6148]) \<and>
   GitHubRepository \<in> set (checkAdditionalNotes [''.git'', ''.github''] [] [''.DS_Store''])"
proof -
  let ?ds = "[a_directory ''.git'', a_directory ''.github'', a_file ''.DS_Store'' 6148]"
  note h = additional_notes [of "[''.git'', ''.github'']" "[]" "[''.DS_Store'']"
      example_platform initial_config 0 "''root''" ?ds]
  have dd: "dotDirectories ?ds = [''.git'', ''.github'']"
    by (simp add: dotDirectories_eq entry_defs first_is_dot_def)
  have nf: "normalFiles ?ds = []"
    by (simp add: normalFiles_eq entry_defs first_is_dot_def)
  have df: "dotFiles ?ds = [''.DS_Store'']"
    by (simp add: dotFiles_eq entry_defs first_is_dot_def)
  have nd: "normalDirectories ?ds = []"
    by (simp add: normalDirectories_eq entry_defs first_is_dot_def)
  have de: "dirExtensions ?ds = []"
    by (simp add: dirExtensions_def directoriesWithExtensions_eq entry_defs first_is_dot_def)
  have fe: "fileExtensions ?ds = []"
    by (simp add: fileExtensions_def nf)
  have sl: "symbolicLinks ?ds = []"
    by (simp add: symbolicLinks_eq entry_defs)
  have ans: "answers ?ds = []"
    unfolding answers_def dd nf df nd de fe sl
    by (simp add: autoIdentify_filter steps_pass_def table_def includes_str_def includesAll_def
        includesAny_def)
  have fc: "foundCollection ?ds = None"
    by (simp add: foundCollection_def fileextObj_def fe countArrayFieldsToObject_def
        checkForCollections_def)
  have e: "checkAdditionalNotes [''.git'', ''.github''] [] [''.DS_Store''] =
     [GitHubRepository, MacFinderFiles]"
    using h by (elim conjE)
  have 1: "additionalInfo_of (processDirents example_platform initial_config 0 ''root'' ?ds) =
     Some [GitHubRepository, MacFinderFiles]"
    using h e by (simp add: dd nf df)
  have 2: "\<not> identified_of (processDirents example_platform initial_config 0 ''root'' ?ds)"
    using h by (simp add: ans fc)
  have 3: "GitHubRepository \<in> set (checkAdditionalNotes [''.git'', ''.github''] [] [''.DS_Store''])"
    using h by simp
  from 1 2 3 show ?thesis by (intro conjI)
qed

section \<open>The collection heuristic\<close>

subsection \<open>The table of extension counts\<close>

lemma countArrayFieldsToObject_foldl:
  "countArrayFieldsToObject array foldcase =
     foldl (\<lambda>obj str. AList.update ((if foldcase then toLowerCase else (\<lambda>s. s)) str)
                         (case map_of obj ((if foldcase then toLowerCase else (\<lambda>s. s)) str) of
                            Some n \<Rightarrow> n + 1 | None \<Rightarrow> 1) obj)
       [] array"
  by (cases foldcase) (simp_all add: countArrayFieldsToObject_def Let_def)

lemma count_keys_set:
  "fst ` set (foldl (\<lambda>obj str. AList.update (f str)
                       (case map_of obj (f str) of Some n \<Rightarrow> n + 1 | None \<Rightarrow> 1) obj) obj0 xs) =
   fst ` set obj0 \<union> f ` set xs"
  by (induction xs arbitrary: obj0) (auto simp add: dom_update)

lemma count_keys_distinct:
  "distinct (map fst obj0) \<Longrightarrow>
   distinct (map fst (foldl (\<lambda>obj str. AList.update (f str)
                       (case map_of obj (f str) of Some n \<Rightarrow> n + 1 | None \<Rightarrow> 1) obj) obj0 xs))"
  by (induction xs arbitrary: obj0) (simp_all add: distinct_update)

lemma count_values:
  "map_of (foldl (\<lambda>obj str. AList.update (f str)
                       (case map_of obj (f str) of Some n \<Rightarrow> n + 1 | None \<Rightarrow> 1) obj) obj0 xs) k =
   (case map_of obj0 k of
      Some n \<Rightarrow> Some (n + count_list (map f xs) k)
    | None \<Rightarrow> if count_list (map f xs) k = 0 then None else Some (count_list (map f xs) k))"
proof (induction xs arbitrary: obj0)
  case Nil
  show ?case by (simp split: option.split)
next
  case (Cons x xs)
  show ?case
    by (simp add: Cons.IH update_conv' split: option.split)
qed

lemma keys_countArrayFieldsToObject:
  "distinct (map fst (countArrayFieldsToObject array foldcase)) \<and>
   set (map fst (countArrayFieldsToObject array foldcase)) =
     (if foldcase then toLowerCase else (\<lambda>s. s)) ` set array"
  unfolding countArrayFieldsToObject_foldl
  using count_keys_set [of "if foldcase then toLowerCase else (\<lambda>s. s)" "[]" array]
    count_keys_distinct [of "[]" "if foldcase then toLowerCase else (\<lambda>s. s)" array]
  by simp

lemma values_countArrayFieldsToObject:
  "map_of (countArrayFieldsToObject array foldcase) k =
     (let n = count_list (map (if foldcase then toLowerCase else (\<lambda>s. s)) array) k
      in if n = 0 then None else Some n)"
  unfolding countArrayFieldsToObject_foldl
  using count_values [of "if foldcase then toLowerCase else (\<lambda>s. s)" "[]" array k]
  by (simp add: Let_def)

lemma distinct_singleton: "distinct ks \<Longrightarrow> set ks = {e} \<Longrightarrow> ks = [e]"
proof -
  assume d: "distinct ks" and s: "set ks = {e}"
  then have "length ks = 1" using distinct_card [of ks] by simp
  then obtain k where "ks = [k]" by (cases ks) auto
  with s show ?thesis by simp
qed

lemma count_list_all: "\<forall>x\<in>set xs. x = e \<Longrightarrow> count_list xs e = length xs"
  by (induction xs) simp_all

lemma checkForCollections_single:
  assumes "toLowerCase ` set fe = {e}"
  shows "checkForCollections (countArrayFieldsToObject fe True) fe =
         (if length fe > 1 then Some (collection_text (length fe) e) else None)"
proof -
  have k: "map fst (countArrayFieldsToObject fe True) = [e]"
    using keys_countArrayFieldsToObject [of fe True] assms by (intro distinct_singleton) simp_all
  have "\<forall>x\<in>set (map toLowerCase fe). x = e" using assms by auto
  then have "count_list (map toLowerCase fe) e = length fe"
    using count_list_all [of "map toLowerCase fe" e] by simp
  moreover have "fe \<noteq> []" using assms by auto
  ultimately have v: "map_of (countArrayFieldsToObject fe True) e = Some (length fe)"
    by (simp add: values_countArrayFieldsToObject)
  show ?thesis
    by (simp add: checkForCollections_def k v)
qed

lemma some_class_find:
  "some_class cs keys n =
     map_option (\<lambda>c. collection_text n (class_name c))
       (find (\<lambda>c. set keys \<subseteq> set (class_exts c)) cs)"
  by (induction cs) (auto simp add: list_all_iff)

lemma checkForCollections_classes:
  assumes "2 \<le> card (toLowerCase ` set fe)"
  shows "checkForCollections (countArrayFieldsToObject fe True) fe =
         map_option (\<lambda>c. collection_text (length fe) (class_name c))
           (find (\<lambda>c. toLowerCase ` set fe \<subseteq> set (class_exts c)) extensions)"
proof -
  note k = keys_countArrayFieldsToObject [of fe True]
  have "length (map fst (countArrayFieldsToObject fe True)) = card (toLowerCase ` set fe)"
    using k distinct_card [of "map fst (countArrayFieldsToObject fe True)"] by simp
  then have l: "length (countArrayFieldsToObject fe True) \<ge> 2" using assms by simp
  then have ne: "countArrayFieldsToObject fe True \<noteq> []" by auto
  have s: "set (map fst (countArrayFieldsToObject fe True)) = toLowerCase ` set fe"
    using k by simp
  from l ne show ?thesis
    unfolding checkForCollections_def Let_def some_class_find s
    by simp
qed

lemma checkForCollections_Nil: "checkForCollections (countArrayFieldsToObject [] b) [] = None"
  by (simp add: checkForCollections_def countArrayFieldsToObject_def)

subsection \<open>Listings of plain files\<close>

lemma answers_Nil_from_buckets:
  assumes "normalDirectories ds = []" "dotDirectories ds = []" "dirExtensions ds = []"
    "dotFiles ds = []" "symbolicLinks ds = []"
    "set (normalFiles ds) \<inter> set [''project.clj'', ''dub.json'', ''dub.sdl'', ''deno.json'',
        ''deno.jsonc'', ''go.mod'', ''build.gradle'', ''__init__.py'', ''info.rkt'',
        ''tsconfig.json''] = {}"
  shows "answers ds = []"
  using assms
  unfolding answers_def
  by (simp add: autoIdentify_filter steps_pass_def table_def includes_str_def includesAll_def
      includesAny_def list_ex_iff)

lemma only_files_buckets:
  assumes "\<forall>d\<in>set ds. isFile d \<and> \<not> isDirectory d \<and> \<not> isSymbolicLink d \<and> statError d = None \<and>
             \<not> first_is_dot (name d)"
  shows "normalDirectories ds = []" "dotDirectories ds = []" "dirExtensions ds = []"
    "dotFiles ds = []" "symbolicLinks ds = []" "normalFiles ds = map name ds"
proof -
  show "normalDirectories ds = []" using assms by (auto simp add: normalDirectories_eq filter_empty_conv)
  show "dotDirectories ds = []" using assms by (auto simp add: dotDirectories_eq filter_empty_conv)
  show "dirExtensions ds = []"
    using assms by (auto simp add: dirExtensions_def directoriesWithExtensions_eq filter_empty_conv)
  show "dotFiles ds = []" using assms by (auto simp add: dotFiles_eq filter_empty_conv)
  show "symbolicLinks ds = []" using assms by (auto simp add: symbolicLinks_eq filter_empty_conv)
  have "filter (\<lambda>d. statError d = None \<and> \<not> isSymbolicLink d \<and> isFile d \<and> \<not> first_is_dot (name d)) ds = ds"
    using assms by (intro filter_True) auto
  then show "normalFiles ds = map name ds" by (simp add: normalFiles_eq)
qed

lemma foundCollection_single:
  assumes "toLowerCase ` set (fileExtensions dirents) = {e}"
  shows "foundCollection dirents =
     (if 1 < count_list (map toLowerCase (fileExtensions dirents)) e
      then Some (''a collection of '' @
                 string_of_nat (count_list (map toLowerCase (fileExtensions dirents)) e) @
                 '' '' @ e @ '' files'')
      else None)"
proof -
  have "\<forall>x\<in>set (map toLowerCase (fileExtensions dirents)). x = e" using assms by auto
  then have "count_list (map toLowerCase (fileExtensions dirents)) e = length (fileExtensions dirents)"
    using count_list_all [of "map toLowerCase (fileExtensions dirents)" e] by simp
  then show ?thesis
    using checkForCollections_single [OF assms]
    by (simp add: foundCollection_def fileextObj_def collection_text_def)
qed

lemma readme_example:
  "collections_of (processDirents P cfg depth filename [a_file ''readme.txt'' n]) = None \<and>
   \<not> identified_of (processDirents P cfg depth filename [a_file ''readme.txt'' n])"
proof -
  let ?ds = "[a_file ''readme.txt'' n]"
  have f: "\<forall>d\<in>set ?ds. isFile d \<and> \<not> isDirectory d \<and> \<not> isSymbolicLink d \<and> statError d = None \<and>
             \<not> first_is_dot (name d)"
    by (simp add: entry_defs first_is_dot_def)
  note b = only_files_buckets [OF f]
  have nf: "normalFiles ?ds = [''readme.txt'']" using b(6) by (simp add: entry_defs)
  have ans: "answers ?ds = []"
    by (rule answers_Nil_from_buckets) (simp_all add: b(1-5) nf)
  have fe: "fileExtensions ?ds = [''.txt'']"
    by (simp add: fileExtensions_def nf includes_dot_def extname_def)
  have fc: "foundCollection ?ds = None"
    by (simp add: foundCollection_def fileextObj_def fe countArrayFieldsToObject_def
        checkForCollections_def toLowerCase_def toLowerCase_char_def)
  show ?thesis
    by (simp add: collections_processDirents identified_processDirents ans fc)
qed

lemma two_txt_example:
  "collections_of (processDirents P cfg depth filename [a_file ''a.txt'' n, a_file ''b.txt'' m]) =
     Some ''a collection of 2 .txt files'' \<and>
   identified_of (processDirents P cfg depth filename [a_file ''a.txt'' n, a_file ''b.txt'' m])"
proof -
  let ?ds = "[a_file ''a.txt'' n, a_file ''b.txt'' m]"
  have f: "\<forall>d\<in>set ?ds. isFile d \<and> \<not> isDirectory d \<and> \<not> isSymbolicLink d \<and> statError d = None \<and>
             \<not> first_is_dot (name d)"
    by (simp add: entry_defs first_is_dot_def)
  note b = only_files_buckets [OF f]
  have nf: "normalFiles ?ds = [''a.txt'', ''b.txt'']" using b(6) by (simp add: entry_defs)
  have ans: "answers ?ds = []"
    by (rule answers_Nil_from_buckets) (simp_all add: b(1-5) nf)
  have fe: "fileExtensions ?ds = [''.txt'', ''.txt'']"
    by (simp add: fileExtensions_def nf includes_dot_def extname_def)
  have fc: "foundCollection ?ds = Some ''a collection of 2 .txt files''"
    by (simp add: foundCollection_def fileextObj_def fe countArrayFieldsToObject_def
        checkForCollections_def toLowerCase_def toLowerCase_char_def collection_text_def
        string_of_nat.simps digit_char_def)
  show ?thesis
    by (simp add: collections_processDirents identified_processDirents ans fc)
qed

lemma first_is_dot_includes_dot: "first_is_dot s \<Longrightarrow> includes_dot s"
  by (cases s) (simp_all add: first_is_dot_def includes_dot_def)

lemma fileExtensions_filter:
  "fileExtensions dirents =
     map extname (filter includes_dot (map name
       (filter (\<lambda>d. statError d = None \<and> \<not> isSymbolicLink d \<and> isFile d \<and>
                     \<not> first_is_dot (name d)) dirents)))"
  by (simp add: fileExtensions_def normalFiles_eq)

lemma fileExtensions_insert_dotless:
  assumes "statError d = None" "\<not> isSymbolicLink d" "isFile d" "\<not> includes_dot (name d)"
  shows "fileExtensions (xs @ d # ys) = fileExtensions (xs @ ys)"
  using assms by (simp add: fileExtensions_filter)

lemma foundCollection_Nil: "fileExtensions dirents = [] \<Longrightarrow> foundCollection dirents = None"
  by (simp add: foundCollection_def fileextObj_def checkForCollections_Nil)

lemma collections_eq_found:
  "answers dirents = [] \<Longrightarrow>
   collections_of (processDirents P cfg depth filename dirents) = foundCollection dirents"
proof (cases "dirents = []")
  case True
  assume "answers dirents = []"
  with True show ?thesis
    by (simp add: collections_processDirents foundCollection_Nil fileExtensions_filter)
next
  case False
  assume "answers dirents = []"
  with False show ?thesis by (simp add: collections_processDirents)
qed

lemma foundCollection_classes:
  assumes "2 \<le> card (toLowerCase ` set (fileExtensions dirents))"
  shows "foundCollection dirents =
     map_option (\<lambda>c. ''a collection of '' @ string_of_nat (length (fileExtensions dirents)) @
                      '' '' @ class_name c @ '' files'')
       (find (\<lambda>c. toLowerCase ` set (fileExtensions dirents) \<subseteq> set (class_exts c)) extensions)"
  using checkForCollections_classes [OF assms]
  by (simp add: foundCollection_def fileextObj_def collection_text_def)

lemma class_names:
  "map class_name extensions =
     [''audio'', ''jpeg'', ''image'', ''video'', ''media'', ''web'', ''C source'', ''C++ source'',
      ''archive'', ''Perl script'', ''JavaScript/ECMAScript/CoffeeScript/TypeScript'', ''script'',
      ''MS Word'', ''word processor'', ''Excel'', ''spreadsheet'', ''MS Office'', ''LibreOffice'',
      ''office'']"
  by (simp add: extensions_def)

lemmas exts_defs = extensions_def audioexts_def jpegexts_def otherimgexts_def videxts_def
  jsexts_def plexts_def wordexts_def excelexts_def

lemma jpeg_example:
  "collections_of (processDirents P cfg depth filename
      [a_file ''image1.jpg'' n, a_file ''image2.jpeg'' m]) = Some ''a collection of 2 jpeg files''"
proof -
  let ?ds = "[a_file ''image1.jpg'' n, a_file ''image2.jpeg'' m]"
  have f: "\<forall>d\<in>set ?ds. isFile d \<and> \<not> isDirectory d \<and> \<not> isSymbolicLink d \<and> statError d = None \<and>
             \<not> first_is_dot (name d)"
    by (simp add: entry_defs first_is_dot_def)
  note b = only_files_buckets [OF f]
  have nf: "normalFiles ?ds = [''image1.jpg'', ''image2.jpeg'']" using b(6) by (simp add: entry_defs)
  have ans: "answers ?ds = []"
    by (rule answers_Nil_from_buckets) (simp_all add: b(1-5) nf)
  have fe: "fileExtensions ?ds = [''.jpg'', ''.jpeg'']"
    by (simp add: fileExtensions_def nf includes_dot_def extname_def)
  have fc: "foundCollection ?ds = Some ''a collection of 2 jpeg files''"
    by (simp add: foundCollection_def fileextObj_def fe countArrayFieldsToObject_def
        checkForCollections_def toLowerCase_def toLowerCase_char_def collection_text_def
        string_of_nat.simps digit_char_def exts_defs)
  show ?thesis
    by (simp add: collections_processDirents ans fc)
qed

subsection \<open>A single extension\<close>

text \<open>
  Claim C5. For every listing: when the extensions of its normal files, case-folded, are
  all one extension \<open>e\<close>, \<^verbatim>\<open>checkForCollections\<close> returns \<^verbatim>\<open>a collection of N e files\<close>, \<open>N\<close>
  being the number of occurrences of \<open>e\<close>, if \<open>N\<close> exceeds 1, and nothing otherwise; when no
  signature matches, that result is the field \<^verbatim>\<open>collections\<close> of the directory. A directory
  holding only the file \<^verbatim>\<open>readme.txt\<close> has no collection and is not identified; a directory
  holding exactly \<^verbatim>\<open>a.txt\<close> and \<^verbatim>\<open>b.txt\<close> has the collection \<^verbatim>\<open>a collection of 2 .txt files\<close>
  and is identified.
\<close>

theorem single_extension_collection:
  "(toLowerCase ` set (fileExtensions dirents) = {e} \<longrightarrow>
      foundCollection dirents =
        (if 1 < count_list (map toLowerCase (fileExtensions dirents)) e
         then Some (''a collection of '' @
                    string_of_nat (count_list (map toLowerCase (fileExtensions dirents)) e) @
                    '' '' @ e @ '' files'')
         else None)) \<and>
   (answers dirents = [] \<longrightarrow>
      collections_of (processDirents P cfg depth filename dirents) = foundCollection dirents) \<and>
   collections_of (processDirents P cfg depth filename [a_file ''readme.txt'' n]) = None \<and>
   \<not> identified_of (processDirents P cfg depth filename [a_file ''readme.txt'' n]) \<and>
   collections_of (processDirents P cfg depth filename [a_file ''a.txt'' n, a_file ''b.txt'' m]) =
     Some ''a collection of 2 .txt files'' \<and>
   identified_of (processDirents P cfg depth filename [a_file ''a.txt'' n, a_file ''b.txt'' m])"
proof -
  have a: "toLowerCase ` set (fileExtensions dirents) = {e} \<longrightarrow>
      foundCollection dirents =
        (if 1 < count_list (map toLowerCase (fileExtensions dirents)) e
         then Some (''a collection of '' @
                    string_of_nat (count_list (map toLowerCase (fileExtensions dirents)) e) @
                    '' '' @ e @ '' files'')
         else None)"
    using foundCollection_single [of dirents e] by blast
  have b: "answers dirents = [] \<longrightarrow>
      collections_of (processDirents P cfg depth filename dirents) = foundCollection dirents"
  proof
    assume ans: "answers dirents = []"
    show "collections_of (processDirents P cfg depth filename dirents) = foundCollection dirents"
    proof (cases "dirents = []")
      case True
      then show ?thesis
        by (simp add: collections_processDirents ans foundCollection_def fileextObj_def
            fileExtensions_def normalFiles_eq checkForCollections_Nil)
    next
      case False
      then show ?thesis by (simp add: collections_processDirents ans)
    qed
  qed
  note c = readme_example [of P cfg depth filename n]
  note d = two_txt_example [of P cfg depth filename n m]
  from a b c d show ?thesis by (intro conjI) simp_all
qed

theorem single_extension_collection_witness:
  "toLowerCase ` set (fileExtensions [a_file ''A.TXT'' 4, a_file ''b.txt'' 2, a_file ''c.Txt'' 3]) =
     {''.txt''} \<and>
   foundCollection [a_file ''A.TXT'' 4, a_file ''b.txt'' 2, a_file ''c.Txt'' 3] =
     Some ''a collection of 3 .txt files''"
proof -
  let ?ds = "[a_file ''A.TXT'' 4, a_file ''b.txt'' 2, a_file ''c.Txt'' 3]"
  have fe: "fileExtensions ?ds = [''.TXT'', ''.txt'', ''.Txt'']"
    by (simp add: fileExtensions_def normalFiles_eq entry_defs first_is_dot_def includes_dot_def
        extname_def)
  have low: "map toLowerCase (fileExtensions ?ds) = [''.txt'', ''.txt'', ''.txt'']"
    by (simp add: fe toLowerCase_def toLowerCase_char_def)
  have img: "toLowerCase ` set (fileExtensions ?ds) = {''.txt''}"
    using low by (metis (no_types) list.set_map list.simps(15) empty_set insert_absorb2)
  have cnt: "count_list (map toLowerCase (fileExtensions ?ds)) ''.txt'' = 3"
    by (simp add: low)
  note h = single_extension_collection
    [where dirents = ?ds and e = "''.txt''", THEN conjunct1, rule_format, OF img]
  have "foundCollection ?ds = Some ''a collection of 3 .txt files''"
    unfolding h cnt by (simp add: string_of_nat.simps digit_char_def)
  with img show ?thesis by (intro conjI)
qed

subsection \<open>A class of extensions\<close>

text \<open>
  Claim C3, as amended. For every listing in which two or more distinct case-folded
  extensions occur among the normal files: \<^verbatim>\<open>checkForCollections\<close> returns
  \<^verbatim>\<open>a collection of N c files\<close> for the first class \<open>c\<close> of the list, in the order audio, jpeg,
  image, ..., office, whose extensions include every distinct extension present, \<open>N\<close> being
  the number of normal files whose names contain a dot; it returns nothing when no class
  does; when no signature matches, that result is the field \<^verbatim>\<open>collections\<close> of the
  directory. A directory holding exactly \<^verbatim>\<open>image1.jpg\<close> and \<^verbatim>\<open>image2.jpeg\<close> has the collection
  \<^verbatim>\<open>a collection of 2 jpeg files\<close>.
\<close>

theorem class_collection:
  "(2 \<le> card (toLowerCase ` set (fileExtensions dirents)) \<longrightarrow>
      foundCollection dirents =
        map_option (\<lambda>c. ''a collection of '' @ string_of_nat (length (fileExtensions dirents)) @
                         '' '' @ class_name c @ '' files'')
          (find (\<lambda>c. toLowerCase ` set (fileExtensions dirents) \<subseteq> set (class_exts c))
             extensions)) \<and>
   (answers dirents = [] \<longrightarrow>
      collections_of (processDirents P cfg depth filename dirents) = foundCollection dirents) \<and>
   map class_name extensions =
     [''audio'', ''jpeg'', ''image'', ''video'', ''media'', ''web'', ''C source'', ''C++ source'',
      ''archive'', ''Perl script'', ''JavaScript/ECMAScript/CoffeeScript/TypeScript'', ''script'',
      ''MS Word'', ''word processor'', ''Excel'', ''spreadsheet'', ''MS Office'', ''LibreOffice'',
      ''office''] \<and>
   collections_of (processDirents P cfg depth filename
      [a_file ''image1.jpg'' n, a_file ''image2.jpeg'' m]) = Some ''a collection of 2 jpeg files'' \<and>
   length (fileExtensions dirents) = length (filter includes_dot (normalFiles dirents))"
proof -
  have a: "2 \<le> card (toLowerCase ` set (fileExtensions dirents)) \<longrightarrow>
      foundCollection dirents =
        map_option (\<lambda>c. ''a collection of '' @ string_of_nat (length (fileExtensions dirents)) @
                         '' '' @ class_name c @ '' files'')
          (find (\<lambda>c. toLowerCase ` set (fileExtensions dirents) \<subseteq> set (class_exts c))
             extensions)"
    using foundCollection_classes [of dirents] by blast
  have b: "answers dirents = [] \<longrightarrow>
      collections_of (processDirents P cfg depth filename dirents) = foundCollection dirents"
    using collections_eq_found [of dirents P cfg depth filename] by blast
  note c = class_names
  note d = jpeg_example [of P cfg depth filename n m]
  have e: "length (fileExtensions dirents) = length (filter includes_dot (normalFiles dirents))"
    by (simp add: fileExtensions_def)
  from a b c d e show ?thesis by (intro conjI)
qed

theorem class_collection_witness:
  "2 \<le> card (toLowerCase ` set (fileExtensions
      [a_file ''x.c'' 2, a_file ''y.H'' 3, a_file ''z.c'' 4])) \<and>
   foundCollection [a_file ''x.c'' 2, a_file ''y.H'' 3, a_file ''z.c'' 4] =
     Some ''a collection of 3 C source files''"
proof -
  let ?ds = "[a_file ''x.c'' 2, a_file ''y.H'' 3, a_file ''z.c'' 4]"
  have fe: "fileExtensions ?ds = [''.c'', ''.H'', ''.c'']"
    by (simp add: fileExtensions_def normalFiles_eq entry_defs first_is_dot_def includes_dot_def
        extname_def)
  have img: "toLowerCase ` set (fileExtensions ?ds) = {''.c'', ''.h''}"
    unfolding fe by (auto simp add: toLowerCase_def toLowerCase_char_def)
  have card: "2 \<le> card (toLowerCase ` set (fileExtensions ?ds))"
    unfolding img by simp
  note h = class_collection [where dirents = ?ds, THEN conjunct1, rule_format, OF card]
  have "foundCollection ?ds = Some ''a collection of 3 C source files''"
    unfolding h unfolding img
    by (simp add: fe exts_defs string_of_nat.simps digit_char_def)
  with card show ?thesis by (intro conjI)
qed

text \<open>
  The claim as it was stated fails in two places. A directory that holds the single file
  \<^verbatim>\<open>photo.jpg\<close> matches no signature, has one distinct extension, which the single-extension
  rule does not report (its count is 1) and which the class jpeg includes; yet nothing is
  reported, because the program consults the classes only when the number of distinct
  extensions is not 1. And a directory that holds \<^verbatim>\<open>README\<close>, \<^verbatim>\<open>a.jpg\<close> and \<^verbatim>\<open>b.jpeg\<close> has
  three files and is reported as a collection of 2.
\<close>

theorem class_collection_counterexample:
  "answers [a_file ''photo.jpg'' 2] = [] \<and>
   fileextObj [a_file ''photo.jpg'' 2] = [(''.jpg'', 1)] \<and>
   find (\<lambda>c. set [''.jpg''] \<subseteq> set (class_exts c)) extensions = Some (ExtClass ''jpeg'' jpegexts) \<and>
   (\<forall>P cfg depth filename.
      collections_of (processDirents P cfg depth filename [a_file ''photo.jpg'' 2]) = None) \<and>
   length (normalFiles [a_file ''README'' 2, a_file ''a.jpg'' 3, a_file ''b.jpeg'' 4]) = 3 \<and>
   (\<forall>P cfg depth filename.
      collections_of (processDirents P cfg depth filename
        [a_file ''README'' 2, a_file ''a.jpg'' 3, a_file ''b.jpeg'' 4]) =
      Some ''a collection of 2 jpeg files'')"
proof -
  let ?ds = "[a_file ''photo.jpg'' 2]"
  have f: "\<forall>d\<in>set ?ds. isFile d \<and> \<not> isDirectory d \<and> \<not> isSymbolicLink d \<and> statError d = None \<and>
             \<not> first_is_dot (name d)"
    by (simp add: entry_defs first_is_dot_def)
  note b = only_files_buckets [OF f]
  have nf: "normalFiles ?ds = [''photo.jpg'']" using b(6) by (simp add: entry_defs)
  have ans: "answers ?ds = []"
    by (rule answers_Nil_from_buckets) (simp_all add: b(1-5) nf)
  have fe: "fileExtensions ?ds = [''.jpg'']"
    by (simp add: fileExtensions_def nf includes_dot_def extname_def)
  have fo: "fileextObj ?ds = [(''.jpg'', 1)]"
    by (simp add: fileextObj_def fe countArrayFieldsToObject_def toLowerCase_def
        toLowerCase_char_def)
  have fc: "foundCollection ?ds = None"
    by (simp add: foundCollection_def fo fe checkForCollections_def)
  have cl: "find (\<lambda>c. set [''.jpg''] \<subseteq> set (class_exts c)) extensions =
      Some (ExtClass ''jpeg'' jpegexts)"
    by (simp add: exts_defs)
  have p1: "\<forall>P cfg depth filename.
      collections_of (processDirents P cfg depth filename ?ds) = None"
    by (simp add: collections_processDirents ans fc)
  let ?es = "[a_file ''README'' 2, a_file ''a.jpg'' 3, a_file ''b.jpeg'' 4]"
  have f2: "\<forall>d\<in>set ?es. isFile d \<and> \<not> isDirectory d \<and> \<not> isSymbolicLink d \<and> statError d = None \<and>
             \<not> first_is_dot (name d)"
    by (simp add: entry_defs first_is_dot_def)
  note b2 = only_files_buckets [OF f2]
  have nf2: "normalFiles ?es = [''README'', ''a.jpg'', ''b.jpeg'']"
    using b2(6) by (simp add: entry_defs)
  have ans2: "answers ?es = []"
    by (rule answers_Nil_from_buckets) (simp_all add: b2(1-5) nf2)
  have fe2: "fileExtensions ?es = [''.jpg'', ''.jpeg'']"
    by (simp add: fileExtensions_def nf2 includes_dot_def extname_def)
  have fc2: "foundCollection ?es = Some ''a collection of 2 jpeg files''"
    by (simp add: foundCollection_def fileextObj_def fe2 countArrayFieldsToObject_def
        checkForCollections_def toLowerCase_def toLowerCase_char_def collection_text_def
        string_of_nat.simps digit_char_def exts_defs)
  have p2: "\<forall>P cfg depth filename.
      collections_of (processDirents P cfg depth filename ?es) =
      Some ''a collection of 2 jpeg files''"
    by (simp add: collections_processDirents ans2 fc2)
  have n3: "length (normalFiles ?es) = 3" by (simp add: nf2)
  from ans fo cl p1 n3 p2 show ?thesis by (intro conjI)
qed

subsection \<open>Files without a dot in their names\<close>

text \<open>
  Claim C10. A normal file whose name contains no dot is in the bucket of normal files, and
  putting it anywhere into a listing changes neither the list of file extensions, nor the
  table of their counts, nor what \<^verbatim>\<open>checkForCollections\<close> returns for the listing (so it
  neither blocks a class nor is counted). When no normal file of a listing has a dot in
  its name, the list of extensions and the table are empty and there is no collection. The
  list of extensions has one element for each normal file with a dot in its name.
\<close>

theorem dotless_files_excluded:
  "(statError d = None \<and> \<not> isSymbolicLink d \<and> isFile d \<and> \<not> includes_dot (name d) \<longrightarrow>
      name d \<in> set (normalFiles (xs @ d # ys)) \<and>
      fileExtensions (xs @ d # ys) = fileExtensions (xs @ ys) \<and>
      fileextObj (xs @ d # ys) = fileextObj (xs @ ys) \<and>
      foundCollection (xs @ d # ys) = foundCollection (xs @ ys)) \<and>
   ((\<forall>n\<in>set (normalFiles dirents). \<not> includes_dot n) \<longrightarrow>
      fileExtensions dirents = [] \<and> fileextObj dirents = [] \<and>
      foundCollection dirents = None \<and>
      collections_of (processDirents P cfg depth filename dirents) = None) \<and>
   length (fileExtensions dirents) = length (filter includes_dot (normalFiles dirents))"
proof -
  have a: "statError d = None \<and> \<not> isSymbolicLink d \<and> isFile d \<and> \<not> includes_dot (name d) \<longrightarrow>
      name d \<in> set (normalFiles (xs @ d # ys)) \<and>
      fileExtensions (xs @ d # ys) = fileExtensions (xs @ ys) \<and>
      fileextObj (xs @ d # ys) = fileextObj (xs @ ys) \<and>
      foundCollection (xs @ d # ys) = foundCollection (xs @ ys)"
  proof
    assume h: "statError d = None \<and> \<not> isSymbolicLink d \<and> isFile d \<and> \<not> includes_dot (name d)"
    then have nd: "\<not> first_is_dot (name d)" using first_is_dot_includes_dot by blast
    have 1: "name d \<in> set (normalFiles (xs @ d # ys))"
      using h nd by (simp add: normalFiles_eq)
    have 2: "fileExtensions (xs @ d # ys) = fileExtensions (xs @ ys)"
      using h by (intro fileExtensions_insert_dotless) simp_all
    show "name d \<in> set (normalFiles (xs @ d # ys)) \<and>
      fileExtensions (xs @ d # ys) = fileExtensions (xs @ ys) \<and>
      fileextObj (xs @ d # ys) = fileextObj (xs @ ys) \<and>
      foundCollection (xs @ d # ys) = foundCollection (xs @ ys)"
      using 1 2 by (simp add: fileextObj_def foundCollection_def)
  qed
  have b: "(\<forall>n\<in>set (normalFiles dirents). \<not> includes_dot n) \<longrightarrow>
      fileExtensions dirents = [] \<and> fileextObj dirents = [] \<and>
      foundCollection dirents = None \<and>
      collections_of (processDirents P cfg depth filename dirents) = None"
  proof
    assume h: "\<forall>n\<in>set (normalFiles dirents). \<not> includes_dot n"
    then have fe: "fileExtensions dirents = []"
      by (simp add: fileExtensions_def filter_empty_conv)
    then have fo: "fileextObj dirents = []"
      by (simp add: fileextObj_def countArrayFieldsToObject_def)
    have fc: "foundCollection dirents = None" using fe by (rule foundCollection_Nil)
    have "collections_of (processDirents P cfg depth filename dirents) = None"
      by (simp add: collections_processDirents fc)
    with fe fo fc show "fileExtensions dirents = [] \<and> fileextObj dirents = [] \<and>
      foundCollection dirents = None \<and>
      collections_of (processDirents P cfg depth filename dirents) = None"
      by simp
  qed
  have c: "length (fileExtensions dirents) = length (filter includes_dot (normalFiles dirents))"
    by (simp add: fileExtensions_def)
  from a b c show ?thesis by (intro conjI)
qed

theorem dotless_files_excluded_witness:
  "statError (a_file ''README'' 3) = None \<and> \<not> isSymbolicLink (a_file ''README'' 3) \<and>
   isFile (a_file ''README'' 3) \<and> \<not> includes_dot (name (a_file ''README'' 3)) \<and>
   foundCollection [a_file ''a.jpg'' 2, a_file ''README'' 3, a_file ''b.jpeg'' 4] =
     foundCollection [a_file ''a.jpg'' 2, a_file ''b.jpeg'' 4] \<and>
   foundCollection [a_file ''README'' 3, a_file ''Makefile'' 4] = None"
proof -
  let ?d = "a_file ''README'' 3"
  have hyp: "statError ?d = None \<and> \<not> isSymbolicLink ?d \<and> isFile ?d \<and> \<not> includes_dot (name ?d)"
    by (simp add: entry_defs includes_dot_def)
  note h1 = dotless_files_excluded
    [where d = ?d and xs = "[a_file ''a.jpg'' 2]" and ys = "[a_file ''b.jpeg'' 4]",
     THEN conjunct1, rule_format, OF hyp]
  have nf: "normalFiles [a_file ''README'' 3, a_file ''Makefile'' 4] = [''README'', ''Makefile'']"
    by (simp add: normalFiles_eq entry_defs first_is_dot_def)
  have hyp2: "\<forall>n\<in>set (normalFiles [a_file ''README'' 3, a_file ''Makefile'' 4]). \<not> includes_dot n"
    by (simp add: nf includes_dot_def)
  note h2 = dotless_files_excluded
    [where dirents = "[a_file ''README'' 3, a_file ''Makefile'' 4]",
     THEN conjunct2, THEN conjunct1, THEN mp, OF hyp2]
  from hyp h1 h2 show ?thesis by simp
qed

section \<open>The recursive explorer\<close>

lemma whichDirectories_Nil: "whichDirectories cfg [] = []"
  by (simp add: whichDirectories_def bucket_eqs)

text \<open>
  Claim C4. For every directory listing, depth and configuration: a directory is identified
  exactly when its listing is not empty and a signature matches or there is a collection; an
  identified directory has no child results, whatever directories it holds; a directory at a
  depth that is not less than \<^verbatim>\<open>MAXDEPTH\<close> has none; an unidentified directory at a depth
  less than \<^verbatim>\<open>MAXDEPTH\<close> has the result of \<^verbatim>\<open>processFilename\<close>, one level deeper, for each
  candidate directory, in the order of the candidates, each under the joined path of the
  candidate; the candidates are the normal directories, then the directories with
  extensions, then, only with \<^verbatim>\<open>FOLLOWDOT\<close>, the dot directories and the UUID directories.
\<close>

theorem recursion_gating:
  "(identified_of (processDirents P cfg depth filename dirents) \<longleftrightarrow>
      dirents \<noteq> [] \<and> (answers dirents \<noteq> [] \<or> foundCollection dirents \<noteq> None)) \<and>
   (identified_of (processDirents P cfg depth filename dirents) \<longrightarrow>
      directoryInfos_of (processDirents P cfg depth filename dirents) = Some []) \<and>
   (MAXDEPTH cfg \<le> int depth \<longrightarrow>
      directoryInfos_of (processDirents P cfg depth filename dirents) = Some []) \<and>
   (\<not> identified_of (processDirents P cfg depth filename dirents) \<and> int depth < MAXDEPTH cfg \<longrightarrow>
      directoryInfos_of (processDirents P cfg depth filename dirents) =
        Some (map (\<lambda>child. processFilename P cfg (depth + 1) (path_join P filename child))
                (whichDirectories cfg dirents)) \<and>
      map name_of (the (directoryInfos_of (processDirents P cfg depth filename dirents))) =
        map (path_join P filename) (whichDirectories cfg dirents)) \<and>
   whichDirectories cfg dirents =
     normalDirectories dirents @ directoriesWithExtensions dirents @
     (if FOLLOWDOT cfg then dotDirectories dirents @ UUIDDirectories dirents else [])"
proof -
  let ?r = "processDirents P cfg depth filename dirents"
  note i = identified_processDirents [of P cfg depth filename dirents]
  note d = directoryInfos_processDirents [of P cfg depth filename dirents]
  have a: "identified_of ?r \<longrightarrow> directoryInfos_of ?r = Some []"
    unfolding i d by auto
  have b: "MAXDEPTH cfg \<le> int depth \<longrightarrow> directoryInfos_of ?r = Some []"
    unfolding d by auto
  have c: "\<not> identified_of ?r \<and> int depth < MAXDEPTH cfg \<longrightarrow>
      directoryInfos_of ?r =
        Some (map (\<lambda>child. processFilename P cfg (depth + 1) (path_join P filename child))
                (whichDirectories cfg dirents)) \<and>
      map name_of (the (directoryInfos_of ?r)) =
        map (path_join P filename) (whichDirectories cfg dirents)"
  proof
    assume h: "\<not> identified_of ?r \<and> int depth < MAXDEPTH cfg"
    have 1: "directoryInfos_of ?r =
        Some (map (\<lambda>child. processFilename P cfg (depth + 1) (path_join P filename child))
                (whichDirectories cfg dirents))"
    proof (cases "dirents = []")
      case True
      then show ?thesis unfolding d by (simp add: whichDirectories_Nil)
    next
      case False
      with h show ?thesis unfolding i d by auto
    qed
    have 2: "map name_of (the (directoryInfos_of ?r)) =
        map (path_join P filename) (whichDirectories cfg dirents)"
      unfolding 1 by (simp add: name_processFilename comp_def)
    from 1 2 show "directoryInfos_of ?r =
        Some (map (\<lambda>child. processFilename P cfg (depth + 1) (path_join P filename child))
                (whichDirectories cfg dirents)) \<and>
      map name_of (the (directoryInfos_of ?r)) =
        map (path_join P filename) (whichDirectories cfg dirents)"
      by (intro conjI)
  qed
  note e = whichDirectories_def [of cfg dirents]
  from i a b c e show ?thesis by (intro conjI)
qed

lemma example_sub:
  "processFilename example_platform initial_config (Suc 0) ''root/sub'' =
     DirectoryInfo ''root/sub'' Directory True None (Some []) (Some []) (Some [''Go module''])
       None None (Some [])"
proof -
  let ?ds = "[a_file ''go.mod'' 5]"
  have rd: "readdirAndStat example_platform ''root/sub'' (Suc 0) = Inr ?ds"
    by (simp add: readdirAndStat_def example_platform_def sort_cmp_def entry_defs)
  have f: "\<forall>d\<in>set ?ds. isFile d \<and> \<not> isDirectory d \<and> \<not> isSymbolicLink d \<and> statError d = None \<and>
             \<not> first_is_dot (name d)"
    by (simp add: entry_defs first_is_dot_def)
  note b = only_files_buckets [OF f]
  have nf: "normalFiles ?ds = [''go.mod'']" using b(6) by (simp add: entry_defs)
  have ans: "answers ?ds = [''Go module'']"
    unfolding answers_def b(1-5) nf
    by (simp add: autoIdentify_filter steps_pass_def table_def includes_str_def includesAll_def
      includesAny_def fileExtensions_def nf includes_dot_def extname_def)
  have pd: "processDirents example_platform initial_config (Suc 0) ''root/sub'' ?ds =
     DirectoryInfo ''root/sub'' Directory True None (Some []) (Some []) (Some [''Go module''])
       None None (Some [])"
    by (simp add: processDirents.simps ans shouldBeEmpty_Nil b(1-5) nf checkAdditionalNotes_def
        includes_str_def)
  have ls: "lstat example_platform ''root/sub'' =
     Inr \<lparr>stats_isFile = False, stats_isDirectory = True, stats_isSymbolicLink = False,
          stats_size = 64\<rparr>"
    by (simp add: example_platform_def)
  show ?thesis
    by (simp add: processFilename.simps ls rd pd)
qed

lemma example_pkg:
  "processFilename example_platform initial_config (Suc 0) ''root/pkg.d'' =
     DirectoryInfo ''root/pkg.d'' Directory False None None (Some []) None None None (Some [])"
proof -
  have rd: "readdirAndStat example_platform ''root/pkg.d'' (Suc 0) = Inr []"
    by (simp add: readdirAndStat_def example_platform_def sort_cmp_def)
  have ls: "lstat example_platform ''root/pkg.d'' =
     Inr \<lparr>stats_isFile = False, stats_isDirectory = True, stats_isSymbolicLink = False,
          stats_size = 64\<rparr>"
    by (simp add: example_platform_def)
  show ?thesis
    by (simp add: processFilename.simps ls rd processDirents.simps shouldBeEmpty_Nil)
qed

theorem recursion_gating_witness:
  "\<not> identified_of (processDirents example_platform initial_config 0 ''root''
       [a_directory ''.hid'', a_file ''notes'' 5, a_directory ''pkg.d'', a_directory ''sub'']) \<and>
   int 0 < MAXDEPTH initial_config \<and>
   directoryInfos_of (processDirents example_platform initial_config 0 ''root''
       [a_directory ''.hid'', a_file ''notes'' 5, a_directory ''pkg.d'', a_directory ''sub'']) =
     Some [DirectoryInfo ''root/sub'' Directory True None (Some []) (Some [])
             (Some [''Go module'']) None None (Some []),
           DirectoryInfo ''root/pkg.d'' Directory False None None (Some []) None None None
             (Some [])] \<and>
   MAXDEPTH initial_config \<le> int 1 \<and>
   directoryInfos_of (processDirents example_platform initial_config 1 ''root''
       [a_directory ''.hid'', a_file ''notes'' 5, a_directory ''pkg.d'', a_directory ''sub'']) =
     Some []"
proof -
  let ?ds = "[a_directory ''.hid'', a_file ''notes'' 5, a_directory ''pkg.d'', a_directory ''sub'']"
  have nd: "normalDirectories ?ds = [''sub'']"
    by (simp add: normalDirectories_eq entry_defs first_is_dot_def includes_dot_def
        UUIDRegex_test_def)
  have dw: "directoriesWithExtensions ?ds = [''pkg.d'']"
    by (simp add: directoriesWithExtensions_eq entry_defs first_is_dot_def includes_dot_def)
  have dd: "dotDirectories ?ds = [''.hid'']"
    by (simp add: dotDirectories_eq entry_defs first_is_dot_def)
  have nf: "normalFiles ?ds = [''notes'']"
    by (simp add: normalFiles_eq entry_defs first_is_dot_def)
  have df: "dotFiles ?ds = []"
    by (simp add: dotFiles_eq entry_defs first_is_dot_def)
  have sl: "symbolicLinks ?ds = []"
    by (simp add: symbolicLinks_eq entry_defs)
  have de: "dirExtensions ?ds = [''.d'']"
    by (simp add: dirExtensions_def dw extname_def)
  have fe: "fileExtensions ?ds = []"
    by (simp add: fileExtensions_def nf includes_dot_def)
  have ans: "answers ?ds = []"
    unfolding answers_def nd dd de nf df fe sl
    by (simp add: autoIdentify_filter steps_pass_def table_def includes_str_def includesAll_def
        includesAny_def)
  have fc: "foundCollection ?ds = None"
    using fe by (rule foundCollection_Nil)
  have wd: "whichDirectories initial_config ?ds = [''sub'', ''pkg.d'']"
    by (simp add: whichDirectories_def nd dw initial_config_def)
  have pj: "path_join example_platform = (\<lambda>a b. a @ ''/'' @ b)"
    by (simp add: example_platform_def)
  have md: "MAXDEPTH initial_config = 1" by (simp add: initial_config_def)
  note h0 = recursion_gating [of example_platform initial_config 0 "''root''" ?ds]
  note h1 = recursion_gating [of example_platform initial_config 1 "''root''" ?ds]
  have ni: "\<not> identified_of (processDirents example_platform initial_config 0 ''root'' ?ds)"
    unfolding h0 [THEN conjunct1] by (simp add: ans fc)
  have lt: "int 0 < MAXDEPTH initial_config" by (simp add: md)
  have le: "MAXDEPTH initial_config \<le> int 1" by (simp add: md)
  note c0 = h0 [THEN conjunct2, THEN conjunct2, THEN conjunct2, THEN conjunct1, THEN mp,
      OF conjI [OF ni lt], THEN conjunct1]
  have ch: "directoryInfos_of (processDirents example_platform initial_config 0 ''root'' ?ds) =
     Some [DirectoryInfo ''root/sub'' Directory True None (Some []) (Some [])
             (Some [''Go module'']) None None (Some []),
           DirectoryInfo ''root/pkg.d'' Directory False None None (Some []) None None None
             (Some [])]"
    unfolding c0 wd pj by (simp add: example_sub example_pkg)
  note c1 = h1 [THEN conjunct2, THEN conjunct2, THEN conjunct1, THEN mp, OF le]
  from ni lt ch le c1 show ?thesis by (intro conjI)
qed

section \<open>The empty directory\<close>

text \<open>
  Claim C6. For an empty listing the program does not do what the claim says: the result of
  \<^verbatim>\<open>processDirents\<close> has \<^verbatim>\<open>identified\<close> false and no answers. There are no child results,
  and \<^verbatim>\<open>printResults\<close> prints \<^verbatim>\<open>=> empty\<close> for it, as for every directory result without
  children.
\<close>

theorem empty_directory:
  "processDirents P cfg depth filename [] =
     DirectoryInfo filename Directory False None None (Some []) None None None (Some []) \<and>
   printResults [processDirents P cfg depth filename []] k =
     [printEntry k filename, printText k ''{'', printAnswer k ''empty'', printText k ''}'']"
  by (simp add: processDirents.simps shouldBeEmpty_Nil printResults.simps dis_of_def)

section \<open>Monotonicity of the signatures\<close>

lemma filter_names_mono:
  "set xs \<subseteq> set ys \<Longrightarrow> set (map name (filter Q xs)) \<subseteq> set (map name (filter Q ys))"
  by auto

lemma buckets_mono:
  assumes "set xs \<subseteq> set ys"
  shows "set (normalDirectories xs) \<subseteq> set (normalDirectories ys)"
    "set (dotDirectories xs) \<subseteq> set (dotDirectories ys)"
    "set (dirExtensions xs) \<subseteq> set (dirExtensions ys)"
    "set (normalFiles xs) \<subseteq> set (normalFiles ys)"
    "set (dotFiles xs) \<subseteq> set (dotFiles ys)"
    "set (fileExtensions xs) \<subseteq> set (fileExtensions ys)"
    "set (symbolicLinks xs) \<subseteq> set (symbolicLinks ys)"
proof -
  show "set (normalDirectories xs) \<subseteq> set (normalDirectories ys)"
    unfolding normalDirectories_eq using assms by (rule filter_names_mono)
  show "set (dotDirectories xs) \<subseteq> set (dotDirectories ys)"
    unfolding dotDirectories_eq using assms by (rule filter_names_mono)
  have dw: "set (directoriesWithExtensions xs) \<subseteq> set (directoriesWithExtensions ys)"
    unfolding directoriesWithExtensions_eq using assms by (rule filter_names_mono)
  then show "set (dirExtensions xs) \<subseteq> set (dirExtensions ys)"
    by (auto simp add: dirExtensions_def)
  show nf: "set (normalFiles xs) \<subseteq> set (normalFiles ys)"
    unfolding normalFiles_eq using assms by (rule filter_names_mono)
  show "set (dotFiles xs) \<subseteq> set (dotFiles ys)"
    unfolding dotFiles_eq using assms by (rule filter_names_mono)
  show "set (fileExtensions xs) \<subseteq> set (fileExtensions ys)"
    using nf by (auto simp add: fileExtensions_def)
  show "set (symbolicLinks xs) \<subseteq> set (symbolicLinks ys)"
    unfolding symbolicLinks_eq using assms by (rule filter_names_mono)
qed

lemma includes_str_mono:
  "set h \<subseteq> set h' \<Longrightarrow> includes_str h ns \<Longrightarrow> includes_str h' ns"
  by (cases ns) (auto simp add: includes_str_def)

lemma includesAll_mono:
  "set h \<subseteq> set h' \<Longrightarrow> includesAll h ns \<Longrightarrow> includesAll h' ns"
  by (auto simp add: includesAll_iff)

lemma includesAny_mono:
  "set h \<subseteq> set h' \<Longrightarrow> includesAny h ns \<Longrightarrow> includesAny h' ns"
  by (auto simp add: includesAny_iff)

lemma table_mono:
  assumes "set nd \<subseteq> set nd'" "set dd \<subseteq> set dd'" "set de \<subseteq> set de'" "set nf \<subseteq> set nf'"
    "set df \<subseteq> set df'" "set fe \<subseteq> set fe'" "set sl \<subseteq> set sl'"
  shows "list_all2 (\<lambda>e e'. entry_name e = entry_name e' \<and>
            (steps_pass (entry_steps e) \<longrightarrow> steps_pass (entry_steps e')))
           (table nd dd de nf df fe sl) (table nd' dd' de' nf' df' fe' sl')"
  unfolding table_def steps_pass_def
  using assms includes_str_mono includesAll_mono includesAny_mono
  by simp


lemma filter_rel_mono:
  "list_all2 (\<lambda>e e'. f e = f e' \<and> (p e \<longrightarrow> p e')) xs ys \<Longrightarrow>
   set (map f (filter p xs)) \<subseteq> set (map f (filter p ys))"
  by (induction xs ys rule: list_all2_induct) auto

lemma autoIdentify_mono:
  assumes "set nd \<subseteq> set nd'" "set dd \<subseteq> set dd'" "set de \<subseteq> set de'" "set nf \<subseteq> set nf'"
    "set df \<subseteq> set df'" "set fe \<subseteq> set fe'" "set sl \<subseteq> set sl'"
  shows "set (autoIdentify nd dd de nf df fe sl) \<subseteq> set (autoIdentify nd' dd' de' nf' df' fe' sl')"
  unfolding autoIdentify_filter
  by (rule filter_rel_mono) (rule table_mono [OF assms])

lemma answers_mono: "set xs \<subseteq> set ys \<Longrightarrow> set (answers xs) \<subseteq> set (answers ys)"
  unfolding answers_def by (intro autoIdentify_mono buckets_mono)

lemma passing_entry_listed:
  "e \<in> set (table nd dd de nf df fe sl) \<Longrightarrow> steps_pass (entry_steps e) \<Longrightarrow>
   entry_name e \<in> set (autoIdentify nd dd de nf df fe sl)"
  by (simp add: autoIdentify_filter)

lemma failing_entry_not_listed:
  assumes "e \<in> set (table nd dd de nf df fe sl)" "\<not> steps_pass (entry_steps e)"
  shows "entry_name e \<notin> set (autoIdentify nd dd de nf df fe sl)"
proof
  assume "entry_name e \<in> set (autoIdentify nd dd de nf df fe sl)"
  then obtain e' where e': "e' \<in> set (table nd dd de nf df fe sl)"
      "steps_pass (entry_steps e')" "entry_name e' = entry_name e"
    by (auto simp add: autoIdentify_filter)
  have "inj_on entry_name (set (table nd dd de nf df fe sl))"
    using distinct_table_names [of nd dd de nf df fe sl] by (simp add: distinct_map)
  with e' assms(1) have "e' = e" by (auto dest: inj_onD)
  with e'(2) assms(2) show False by simp
qed

lemma removed_name_buckets:
  "normalDirectories (filter (\<lambda>d. name d \<noteq> n) ds) = filter (\<lambda>x. x \<noteq> n) (normalDirectories ds)"
  "dotDirectories (filter (\<lambda>d. name d \<noteq> n) ds) = filter (\<lambda>x. x \<noteq> n) (dotDirectories ds)"
  "normalFiles (filter (\<lambda>d. name d \<noteq> n) ds) = filter (\<lambda>x. x \<noteq> n) (normalFiles ds)"
  "dotFiles (filter (\<lambda>d. name d \<noteq> n) ds) = filter (\<lambda>x. x \<noteq> n) (dotFiles ds)"
  "symbolicLinks (filter (\<lambda>d. name d \<noteq> n) ds) = filter (\<lambda>x. x \<noteq> n) (symbolicLinks ds)"
  by (simp_all add: bucket_eqs filter_map comp_def conj_commute)

text \<open>
  Claim C7. When every entry of a listing is an entry of a second listing, every signature
  that matches the first matches the second. For all arrays: the name of a table entry all
  of whose steps pass is among the matches; and the name of a table entry is not among the
  matches when one of its steps requires a name \<open>n\<close> (its test is \<^verbatim>\<open>includes\<close> with the needle
  \<open>n\<close>, or \<^verbatim>\<open>includesAll\<close> with \<open>n\<close> among the needles) and \<open>n\<close> is not in the array the step
  searches. The matches of a listing are \<^verbatim>\<open>autoIdentify\<close> of its buckets, and removing the
  entries named \<open>n\<close> from a listing removes \<open>n\<close>, and nothing else, from each of the five
  buckets of names that the table searches.
\<close>

theorem signature_monotonicity:
  "(set dirents \<subseteq> set dirents' \<longrightarrow> set (answers dirents) \<subseteq> set (answers dirents')) \<and>
   (\<forall>e\<in>set (table nd dd de nf df fe sl).
      (\<forall>(haystack, check, needles)\<in>set (entry_steps e). check haystack needles) \<longrightarrow>
      entry_name e \<in> set (autoIdentify nd dd de nf df fe sl)) \<and>
   (\<forall>e\<in>set (table nd dd de nf df fe sl). \<forall>(haystack, check, needles)\<in>set (entry_steps e).
      (check = includes_str \<and> needles = [n] \<or> check = includesAll \<and> n \<in> set needles) \<and>
      n \<notin> set haystack \<longrightarrow>
      entry_name e \<notin> set (autoIdentify nd dd de nf df fe sl)) \<and>
   answers dirents =
     autoIdentify (normalDirectories dirents) (dotDirectories dirents) (dirExtensions dirents)
       (normalFiles dirents) (dotFiles dirents) (fileExtensions dirents) (symbolicLinks dirents) \<and>
   normalDirectories (filter (\<lambda>d. name d \<noteq> n) dirents) =
     filter (\<lambda>x. x \<noteq> n) (normalDirectories dirents) \<and>
   dotDirectories (filter (\<lambda>d. name d \<noteq> n) dirents) =
     filter (\<lambda>x. x \<noteq> n) (dotDirectories dirents) \<and>
   normalFiles (filter (\<lambda>d. name d \<noteq> n) dirents) =
     filter (\<lambda>x. x \<noteq> n) (normalFiles dirents) \<and>
   dotFiles (filter (\<lambda>d. name d \<noteq> n) dirents) =
     filter (\<lambda>x. x \<noteq> n) (dotFiles dirents) \<and>
   symbolicLinks (filter (\<lambda>d. name d \<noteq> n) dirents) =
     filter (\<lambda>x. x \<noteq> n) (symbolicLinks dirents)"
proof -
  have a: "set dirents \<subseteq> set dirents' \<longrightarrow> set (answers dirents) \<subseteq> set (answers dirents')"
    using answers_mono [of dirents dirents'] by blast
  have b: "\<forall>e\<in>set (table nd dd de nf df fe sl).
      (\<forall>(haystack, check, needles)\<in>set (entry_steps e). check haystack needles) \<longrightarrow>
      entry_name e \<in> set (autoIdentify nd dd de nf df fe sl)"
    using passing_entry_listed [of _ nd dd de nf df fe sl] by (simp add: steps_pass_iff)
  have c: "\<forall>e\<in>set (table nd dd de nf df fe sl). \<forall>(haystack, check, needles)\<in>set (entry_steps e).
      (check = includes_str \<and> needles = [n] \<or> check = includesAll \<and> n \<in> set needles) \<and>
      n \<notin> set haystack \<longrightarrow>
      entry_name e \<notin> set (autoIdentify nd dd de nf df fe sl)"
  proof (intro ballI, clarify)
    fix e haystack check needles
    assume e: "e \<in> set (table nd dd de nf df fe sl)"
      and s: "(haystack, check, needles) \<in> set (entry_steps e)"
      and r: "check = includes_str \<and> needles = [n] \<or> check = includesAll \<and> n \<in> set needles"
      and n: "n \<notin> set haystack"
      and m: "entry_name e \<in> set (autoIdentify nd dd de nf df fe sl)"
    from r n have "\<not> check haystack needles"
      by (auto simp add: includes_str_iff includesAll_iff)
    with s have "\<not> steps_pass (entry_steps e)"
      unfolding steps_pass_iff by (intro notI) (drule bspec, assumption, simp)
    with e have "entry_name e \<notin> set (autoIdentify nd dd de nf df fe sl)"
      by (rule failing_entry_not_listed)
    with m show False by simp
  qed
  note d = answers_def [of dirents]
  note r = removed_name_buckets [of n dirents]
  from a b c d r show ?thesis by (intro conjI)
qed

theorem signature_monotonicity_witness:
  "set [a_file ''Cargo.lock'' 9, a_directory ''src''] \<subseteq>
     set [a_file ''Cargo.lock'' 9, a_file ''Cargo.toml'' 8, a_directory ''src''] \<and>
   set (answers [a_file ''Cargo.lock'' 9, a_directory ''src'']) \<subseteq>
     set (answers [a_file ''Cargo.lock'' 9, a_file ''Cargo.toml'' 8, a_directory ''src'']) \<and>
   ''Rust project'' \<in>
     set (answers [a_file ''Cargo.lock'' 9, a_file ''Cargo.toml'' 8, a_directory ''src'']) \<and>
   ''Rust project'' \<notin>
     set (answers (filter (\<lambda>d. name d \<noteq> ''Cargo.toml'')
            [a_file ''Cargo.lock'' 9, a_file ''Cargo.toml'' 8, a_directory ''src'']))"
proof -
  let ?L0 = "[a_file ''Cargo.lock'' 9, a_directory ''src'']"
  let ?L1 = "[a_file ''Cargo.lock'' 9, a_file ''Cargo.toml'' 8, a_directory ''src'']"
  let ?L2 = "filter (\<lambda>d. name d \<noteq> ''Cargo.toml'') ?L1"
  let ?rust = "\<lambda>ds. Entry ''Rust project''
      [(normalFiles ds, includesAll, [''Cargo.lock'', ''Cargo.toml'']),
       (normalDirectories ds, includesAll, [''src''])]"
  let ?table = "\<lambda>ds. table (normalDirectories ds) (dotDirectories ds) (dirExtensions ds)
      (normalFiles ds) (dotFiles ds) (fileExtensions ds) (symbolicLinks ds)"
  have sub: "set ?L0 \<subseteq> set ?L1" by auto
  note h1 = signature_monotonicity [where dirents = ?L0 and dirents' = ?L1]
  have mono: "set (answers ?L0) \<subseteq> set (answers ?L1)"
    using h1 [THEN conjunct1] sub by (rule mp)
  \<comment> \<open>the signature appears once every step passes\<close>
  note h2 = signature_monotonicity
    [where dirents = ?L1 and nd = "normalDirectories ?L1" and dd = "dotDirectories ?L1"
       and de = "dirExtensions ?L1" and nf = "normalFiles ?L1" and df = "dotFiles ?L1"
       and fe = "fileExtensions ?L1" and sl = "symbolicLinks ?L1"]
  have in1: "?rust ?L1 \<in> set (?table ?L1)" by (simp add: table_def)
  have nf1: "normalFiles ?L1 = [''Cargo.lock'', ''Cargo.toml'']"
    by (simp add: normalFiles_eq entry_defs first_is_dot_def)
  have nd1: "normalDirectories ?L1 = [''src'']"
    by (simp add: normalDirectories_eq entry_defs first_is_dot_def includes_dot_def
        UUIDRegex_test_def)
  have pass: "\<forall>(haystack, check, needles)\<in>set (entry_steps (?rust ?L1)). check haystack needles"
    by (simp add: nf1 nd1 includesAll_iff)
  have appears: "''Rust project'' \<in> set (answers ?L1)"
    using h2 [THEN conjunct2, THEN conjunct1, THEN bspec, OF in1, THEN mp, OF pass]
    unfolding h2 [THEN conjunct2, THEN conjunct2, THEN conjunct2, THEN conjunct1]
    by simp
  \<comment> \<open>and disappears when a required name is removed\<close>
  note h3 = signature_monotonicity
    [where dirents = ?L1 and n = "''Cargo.toml''"
       and nd = "normalDirectories ?L2" and dd = "dotDirectories ?L2"
       and de = "dirExtensions ?L2" and nf = "normalFiles ?L2" and df = "dotFiles ?L2"
       and fe = "fileExtensions ?L2" and sl = "symbolicLinks ?L2"]
  have in2: "?rust ?L2 \<in> set (?table ?L2)" by (simp add: table_def)
  have st: "(normalFiles ?L2, includesAll, [''Cargo.lock'', ''Cargo.toml'']) \<in>
      set (entry_steps (?rust ?L2))"
    by simp
  have nf2: "normalFiles ?L2 = filter (\<lambda>x. x \<noteq> ''Cargo.toml'') (normalFiles ?L1)"
    by (rule h3 [THEN conjunct2, THEN conjunct2, THEN conjunct2, THEN conjunct2, THEN conjunct2,
        THEN conjunct2, THEN conjunct1])
  have gone: "''Cargo.toml'' \<notin> set (normalFiles ?L2)"
    unfolding nf2 by simp
  have req: "(includesAll = includes_str \<and> [''Cargo.lock'', ''Cargo.toml''] = [''Cargo.toml''] \<or>
       includesAll = includesAll \<and> ''Cargo.toml'' \<in> set [''Cargo.lock'', ''Cargo.toml'']) \<and>
      ''Cargo.toml'' \<notin> set (normalFiles ?L2)"
    using gone by simp
  have "entry_name (?rust ?L2) \<notin> set (autoIdentify (normalDirectories ?L2) (dotDirectories ?L2)
      (dirExtensions ?L2) (normalFiles ?L2) (dotFiles ?L2) (fileExtensions ?L2) (symbolicLinks ?L2))"
    using h3 [THEN conjunct2, THEN conjunct2, THEN conjunct1, THEN bspec, OF in2, THEN bspec, OF st]
      req by simp
  then have disappears: "''Rust project'' \<notin> set (answers ?L2)"
    by (simp add: answers_def)
  from sub mono appears disappears show ?thesis by (intro conjI)
qed

section \<open>The command line\<close>

lemma split_eq_not_Nil: "split_eq s \<noteq> []"
  by (induction s) (simp_all split: list.split)

lemma split_eq_no_equals: "CHR ''='' \<notin> set s \<Longrightarrow> split_eq s = [s]"
  by (induction s) auto

lemma split_eq_equals: "CHR ''='' \<in> set s \<Longrightarrow> 2 \<le> length (split_eq s)"
proof (induction s)
  case Nil
  then show ?case by simp
next
  case (Cons c s)
  show ?case
  proof (cases "c = CHR ''=''")
    case True
    then show ?thesis using split_eq_not_Nil [of s] by (cases "split_eq s") simp_all
  next
    case False
    with Cons show ?thesis by (cases "split_eq s") simp_all
  qed
qed

lemma split_eq_m: "split_eq (CHR ''m'' # CHR ''='' # V) = ''m'' # split_eq V"
  using split_eq_not_Nil [of V] by (cases "split_eq V") simp_all

lemma strict_equal_iff:
  "strict_equal numpi numnum \<longleftrightarrow> (\<exists>k. numpi = Some k \<and> numnum = Some (of_int k))"
  by (auto simp add: strict_equal_def split: option.split)

lemma processArg_m:
  assumes "\<forall>s. CHR ''='' \<in> set s \<longrightarrow> Number P s = None"
  shows "processArg P (cfg, args) (''-m='' @ V) =
     (if strict_equal (parseInt10 P V) (Number P V)
      then (cfg\<lparr>MAXDEPTH := the (parseInt10 P V)\<rparr>, args) else (cfg, args))"
proof (cases "CHR ''='' \<in> set V")
  case True
  then have "Number P V = None" using assms by simp
  then have ne: "\<not> strict_equal (parseInt10 P V) (Number P V)"
    by (simp add: strict_equal_iff)
  have "length (split_eq (CHR ''m'' # CHR ''='' # V)) \<noteq> 2"
    using split_eq_equals [OF True] by (simp add: split_eq_m del: split_eq.simps)
  then show ?thesis
    using ne by (simp add: processArg_def Let_def del: split_eq.simps)
next
  case False
  have kv: "split_eq (CHR ''m'' # CHR ''='' # V) = [''m'', V]"
    by (simp add: split_eq_m split_eq_no_equals [OF False] del: split_eq.simps)
  have fl: "strict_equal (parseInt10 P V) (Number P V) \<Longrightarrow>
      \<lfloor>the (Number P V)\<rfloor> = the (parseInt10 P V)"
    by (auto simp add: strict_equal_iff)
  show ?thesis
    using kv fl by (simp add: processArg_def Let_def del: split_eq.simps)
qed

text \<open>
  Claim C9, as amended. On a platform where \<^verbatim>\<open>Number\<close> of a string with an equals sign is
  \<^verbatim>\<open>NaN\<close> (as it is in JavaScript): for every \<open>V\<close>, the argument \<^verbatim>\<open>-m=V\<close> sets \<^verbatim>\<open>MAXDEPTH\<close> to
  the value of \<open>V\<close> exactly when \<^verbatim>\<open>parseInt(V, 10)\<close> and \<^verbatim>\<open>Number(V)\<close> are the same number, and
  otherwise changes nothing: the earlier value stays, which is 1 when the argument is the
  only one. It never adds a path to the arguments.
\<close>

theorem maxdepth_argument:
  "(\<forall>s. CHR ''='' \<in> set s \<longrightarrow> Number P s = None) \<longrightarrow>
     processArg P (cfg, args) (''-m='' @ V) =
       (if \<exists>k. parseInt10 P V = Some k \<and> Number P V = Some (of_int k)
        then (cfg\<lparr>MAXDEPTH := the (parseInt10 P V)\<rparr>, args)
        else (cfg, args)) \<and>
     processCommandline P initial_config [node, script, ''-m='' @ V] =
       (if \<exists>k. parseInt10 P V = Some k \<and> Number P V = Some (of_int k)
        then (initial_config\<lparr>MAXDEPTH := the (parseInt10 P V)\<rparr>, [])
        else (initial_config, [])) \<and>
     MAXDEPTH initial_config = 1"
proof
  assume a: "\<forall>s. CHR ''='' \<in> set s \<longrightarrow> Number P s = None"
  have 1: "processArg P (cfg, args) (''-m='' @ V) =
       (if \<exists>k. parseInt10 P V = Some k \<and> Number P V = Some (of_int k)
        then (cfg\<lparr>MAXDEPTH := the (parseInt10 P V)\<rparr>, args)
        else (cfg, args))" for cfg args
    using processArg_m [OF a, of cfg args V] by (simp add: strict_equal_iff)
  have 2: "processCommandline P initial_config [node, script, ''-m='' @ V] =
       (if \<exists>k. parseInt10 P V = Some k \<and> Number P V = Some (of_int k)
        then (initial_config\<lparr>MAXDEPTH := the (parseInt10 P V)\<rparr>, [])
        else (initial_config, []))"
    unfolding processCommandline_def using 1 [of initial_config "[]"] by simp
  have 3: "MAXDEPTH initial_config = 1" by (simp add: initial_config_def)
  from 1 2 3 show "processArg P (cfg, args) (''-m='' @ V) =
       (if \<exists>k. parseInt10 P V = Some k \<and> Number P V = Some (of_int k)
        then (cfg\<lparr>MAXDEPTH := the (parseInt10 P V)\<rparr>, args)
        else (cfg, args)) \<and>
     processCommandline P initial_config [node, script, ''-m='' @ V] =
       (if \<exists>k. parseInt10 P V = Some k \<and> Number P V = Some (of_int k)
        then (initial_config\<lparr>MAXDEPTH := the (parseInt10 P V)\<rparr>, [])
        else (initial_config, [])) \<and>
     MAXDEPTH initial_config = 1"
    by (intro conjI)
qed

lemma example_Number_equals: "\<forall>s. CHR ''='' \<in> set s \<longrightarrow> Number example_platform s = None"
  by (auto simp add: example_platform_def)

theorem maxdepth_argument_witness:
  "MAXDEPTH (fst (processCommandline example_platform initial_config
      [''node'', ''dirsniff.js'', ''-m=3''])) = 3 \<and>
   MAXDEPTH (fst (processCommandline example_platform initial_config
      [''node'', ''dirsniff.js'', ''-m=1.5''])) = 1 \<and>
   MAXDEPTH (fst (processCommandline example_platform initial_config
      [''node'', ''dirsniff.js'', ''-m=abc''])) = 1"
proof -
  note a = example_Number_equals
  note h3 = maxdepth_argument [where P = example_platform and V = "''3''"
      and node = "''node''" and script = "''dirsniff.js''", THEN mp, OF a, THEN conjunct2,
      THEN conjunct1]
  note h15 = maxdepth_argument [where P = example_platform and V = "''1.5''"
      and node = "''node''" and script = "''dirsniff.js''", THEN mp, OF a, THEN conjunct2,
      THEN conjunct1]
  note habc = maxdepth_argument [where P = example_platform and V = "''abc''"
      and node = "''node''" and script = "''dirsniff.js''", THEN mp, OF a, THEN conjunct2,
      THEN conjunct1]
  have 1: "MAXDEPTH (fst (processCommandline example_platform initial_config
      [''node'', ''dirsniff.js'', ''-m=3''])) = 3"
    using h3 by (simp add: example_platform_def)
  have 2: "MAXDEPTH (fst (processCommandline example_platform initial_config
      [''node'', ''dirsniff.js'', ''-m=1.5''])) = 1"
    using h15 by (simp add: example_platform_def initial_config_def)
  have 3: "MAXDEPTH (fst (processCommandline example_platform initial_config
      [''node'', ''dirsniff.js'', ''-m=abc''])) = 1"
    using habc by (simp add: example_platform_def initial_config_def)
  from 1 2 3 show ?thesis by (intro conjI)
qed

text \<open>
  The claim as it was stated also calls every value in hexadecimal, fractional or exponent
  notation malformed. The test is on the two numbers, not on the notation: \<^verbatim>\<open>-m=0x0\<close>,
  \<^verbatim>\<open>-m=2.0\<close> and \<^verbatim>\<open>-m=2e0\<close> pass it and change \<^verbatim>\<open>MAXDEPTH\<close> from 1 to 0, 2 and 2.
\<close>

theorem maxdepth_argument_counterexample:
  "parseInt10 example_platform ''0x0'' = Some 0 \<and> Number example_platform ''0x0'' = Some 0 \<and>
   MAXDEPTH initial_config = 1 \<and>
   MAXDEPTH (fst (processCommandline example_platform initial_config
      [''node'', ''dirsniff.js'', ''-m=0x0''])) = 0 \<and>
   MAXDEPTH (fst (processCommandline example_platform initial_config
      [''node'', ''dirsniff.js'', ''-m=2.0''])) = 2 \<and>
   MAXDEPTH (fst (processCommandline example_platform initial_config
      [''node'', ''dirsniff.js'', ''-m=2e0''])) = 2"
  by (simp add: processCommandline_def processArg_def Let_def strict_equal_def
      example_platform_def initial_config_def)

end
